theory Spec2Isabelle
  imports Complex_Main
begin

section \<open>JavaScript numbers\<close>

text \<open>
  Every numeric value of the program is a JavaScript \<^verbatim>\<open>number\<close>. The model keeps the
  special values the program branches on (\<^verbatim>\<open>NaN\<close>, \<^verbatim>\<open>Infinity\<close>, \<^verbatim>\<open>-Infinity\<close>) and
  has two arithmetics on the finite ones. In the first, of this section, a finite number
  is an exact real: the operations follow IEEE 754 on the special values and are exact
  on finite ones, so binary rounding, overflow of a finite result and the sign of zero
  are not part of it; it carries the statements that do not turn on rounding. The
  second, of the section on binary64 arithmetic, rounds every operation to the nearest
  double; \<^verbatim>\<open>Look\<close> and the Pearson III factor, whose statements turn on rounding, are
  stated over it.
\<close>

datatype jsnum = Fin real | PInf | NInf | NaN

fun isNaN :: "jsnum \<Rightarrow> bool" where
  "isNaN NaN = True"
| "isNaN _ = False"

fun jneg :: "jsnum \<Rightarrow> jsnum" where
  "jneg (Fin a) = Fin (- a)"
| "jneg PInf = NInf"
| "jneg NInf = PInf"
| "jneg NaN = NaN"

fun jadd :: "jsnum \<Rightarrow> jsnum \<Rightarrow> jsnum" where
  "jadd NaN _ = NaN"
| "jadd _ NaN = NaN"
| "jadd (Fin a) (Fin b) = Fin (a + b)"
| "jadd PInf NInf = NaN"
| "jadd NInf PInf = NaN"
| "jadd PInf _ = PInf"
| "jadd _ PInf = PInf"
| "jadd NInf _ = NInf"
| "jadd _ NInf = NInf"

definition jsub :: "jsnum \<Rightarrow> jsnum \<Rightarrow> jsnum" where
  "jsub a b = jadd a (jneg b)"

fun jmul :: "jsnum \<Rightarrow> jsnum \<Rightarrow> jsnum" where
  "jmul NaN _ = NaN"
| "jmul _ NaN = NaN"
| "jmul (Fin a) (Fin b) = Fin (a * b)"
| "jmul PInf (Fin b) = (if b = 0 then NaN else if 0 < b then PInf else NInf)"
| "jmul NInf (Fin b) = (if b = 0 then NaN else if 0 < b then NInf else PInf)"
| "jmul (Fin a) PInf = (if a = 0 then NaN else if 0 < a then PInf else NInf)"
| "jmul (Fin a) NInf = (if a = 0 then NaN else if 0 < a then NInf else PInf)"
| "jmul PInf PInf = PInf"
| "jmul NInf NInf = PInf"
| "jmul PInf NInf = NInf"
| "jmul NInf PInf = NInf"

fun jdiv :: "jsnum \<Rightarrow> jsnum \<Rightarrow> jsnum" where
  "jdiv NaN _ = NaN"
| "jdiv _ NaN = NaN"
| "jdiv (Fin a) (Fin b) =
     (if b \<noteq> 0 then Fin (a / b)
      else if 0 < a then PInf else if a < 0 then NInf else NaN)"
| "jdiv (Fin a) PInf = Fin 0"
| "jdiv (Fin a) NInf = Fin 0"
| "jdiv PInf (Fin b) = (if 0 \<le> b then PInf else NInf)"
| "jdiv NInf (Fin b) = (if 0 \<le> b then NInf else PInf)"
| "jdiv _ _ = NaN"

text \<open>The comparisons \<^verbatim>\<open><\<close>, \<^verbatim>\<open>>\<close>, \<^verbatim>\<open><=\<close>, \<^verbatim>\<open>>=\<close>, \<^verbatim>\<open>===\<close>: all false on \<^verbatim>\<open>NaN\<close>.\<close>

fun jlt :: "jsnum \<Rightarrow> jsnum \<Rightarrow> bool" where
  "jlt NaN _ = False"
| "jlt _ NaN = False"
| "jlt (Fin a) (Fin b) = (a < b)"
| "jlt _ NInf = False"
| "jlt PInf _ = False"
| "jlt NInf _ = True"
| "jlt _ PInf = True"

definition jeq :: "jsnum \<Rightarrow> jsnum \<Rightarrow> bool" where
  "jeq a b = (\<not> isNaN a \<and> a = b)"

definition jle :: "jsnum \<Rightarrow> jsnum \<Rightarrow> bool" where
  "jle a b = (jlt a b \<or> jeq a b)"

text \<open>
  The operators of the source are written with the usual symbols; each one unfolds to
  the function above (\<open>a > b\<close> abbreviates \<open>b < a\<close>, and \<open>a \<ge> b\<close> abbreviates \<open>b \<le> a\<close>).
\<close>

instantiation jsnum :: "{plus, minus, uminus, times, inverse, ord}"
begin

definition plus_jsnum :: "jsnum \<Rightarrow> jsnum \<Rightarrow> jsnum" where
  "plus_jsnum a b = jadd a b"

definition minus_jsnum :: "jsnum \<Rightarrow> jsnum \<Rightarrow> jsnum" where
  "minus_jsnum a b = jsub a b"

definition uminus_jsnum :: "jsnum \<Rightarrow> jsnum" where
  "uminus_jsnum a = jneg a"

definition times_jsnum :: "jsnum \<Rightarrow> jsnum \<Rightarrow> jsnum" where
  "times_jsnum a b = jmul a b"

definition divide_jsnum :: "jsnum \<Rightarrow> jsnum \<Rightarrow> jsnum" where
  "divide_jsnum a b = jdiv a b"

definition inverse_jsnum :: "jsnum \<Rightarrow> jsnum" where
  "inverse_jsnum a = jdiv (Fin 1) a"

definition less_jsnum :: "jsnum \<Rightarrow> jsnum \<Rightarrow> bool" where
  "less_jsnum a b = jlt a b"

definition less_eq_jsnum :: "jsnum \<Rightarrow> jsnum \<Rightarrow> bool" where
  "less_eq_jsnum a b = jle a b"

instance ..

end

text \<open>\<^verbatim>\<open>Math.sqrt\<close>, \<^verbatim>\<open>Math.log\<close>, \<^verbatim>\<open>Math.log10\<close> and \<^verbatim>\<open>Math.round\<close>.\<close>

fun jsqrt :: "jsnum \<Rightarrow> jsnum" where
  "jsqrt (Fin a) = (if a < 0 then NaN else Fin (sqrt a))"
| "jsqrt PInf = PInf"
| "jsqrt _ = NaN"

fun jlog :: "jsnum \<Rightarrow> jsnum" where
  "jlog (Fin a) = (if a < 0 then NaN else if a = 0 then NInf else Fin (ln a))"
| "jlog PInf = PInf"
| "jlog _ = NaN"

fun jlog10 :: "jsnum \<Rightarrow> jsnum" where
  "jlog10 (Fin a) = (if a < 0 then NaN else if a = 0 then NInf else Fin (log 10 a))"
| "jlog10 PInf = PInf"
| "jlog10 _ = NaN"

fun jround :: "jsnum \<Rightarrow> jsnum" where
  "jround (Fin a) = Fin (of_int \<lfloor>a + 1 / 2\<rfloor>)"
| "jround x = x"

text \<open>
  \<^verbatim>\<open>Math.pow(base, exponent)\<close>, case by case as ECMAScript defines it: a zero exponent
  gives 1 whatever the base, a negative base with a non-integer exponent gives \<^verbatim>\<open>NaN\<close>.
\<close>

definition is_integer :: "real \<Rightarrow> bool" where
  "is_integer y = (of_int \<lfloor>y\<rfloor> = y)"

definition is_odd_integer :: "real \<Rightarrow> bool" where
  "is_odd_integer y = (is_integer y \<and> odd \<lfloor>y\<rfloor>)"

fun jpow :: "jsnum \<Rightarrow> jsnum \<Rightarrow> jsnum" where
  "jpow _ NaN = NaN"
| "jpow b (Fin y) =
     (if y = 0 then Fin 1
      else case b of
        NaN \<Rightarrow> NaN
      | PInf \<Rightarrow> (if 0 < y then PInf else Fin 0)
      | NInf \<Rightarrow> (if 0 < y then (if is_odd_integer y then NInf else PInf) else Fin 0)
      | Fin x \<Rightarrow>
          (if x = 0 then (if 0 < y then Fin 0 else PInf)
           else if 0 < x then Fin (x powr y)
           else if is_odd_integer y then Fin (- ((- x) powr y))
           else if is_integer y then Fin ((- x) powr y)
           else NaN))"
| "jpow b PInf =
     (case b of
        NaN \<Rightarrow> NaN
      | Fin x \<Rightarrow> (if 1 < \<bar>x\<bar> then PInf else if \<bar>x\<bar> = 1 then NaN else Fin 0)
      | _ \<Rightarrow> PInf)"
| "jpow b NInf =
     (case b of
        NaN \<Rightarrow> NaN
      | Fin x \<Rightarrow> (if 1 < \<bar>x\<bar> then Fin 0 else if \<bar>x\<bar> = 1 then NaN else PInf)
      | _ \<Rightarrow> Fin 0)"

section \<open>RainUtils\<close>

text \<open>
  The exceptions of the core: the three \<^verbatim>\<open>throw new Error(...)\<close> of the source, named after
  their messages, and the \<^verbatim>\<open>RangeError\<close> of \<^verbatim>\<open>new Array(size)\<close> for a size that is not a
  valid array length.
\<close>

datatype error =
    InvalidConfidenceLevelIndex
  | EmptyInputData
  | UnsupportedDistributionType int
  | RangeError

text \<open>
  \<^verbatim>\<open>sort(arr)\<close> returns \<^verbatim>\<open>arr.slice().sort((a, b) => a - b)\<close>: a stable sort of a copy, an
  element moving behind another exactly when the comparator is positive.
\<close>

fun insert_by :: "(jsnum \<Rightarrow> jsnum \<Rightarrow> jsnum) \<Rightarrow> jsnum \<Rightarrow> jsnum list \<Rightarrow> jsnum list" where
  "insert_by cmp x [] = [x]"
| "insert_by cmp x (y # ys) =
     (if cmp x y > Fin 0 then y # insert_by cmp x ys else x # y # ys)"

definition sort_by :: "(jsnum \<Rightarrow> jsnum \<Rightarrow> jsnum) \<Rightarrow> jsnum list \<Rightarrow> jsnum list" where
  "sort_by cmp xs = foldr (insert_by cmp) xs []"

definition sort_arr :: "jsnum list \<Rightarrow> jsnum list" where
  "sort_arr arr = sort_by (\<lambda>a b. a - b) arr"

record stats =
  Xmin :: jsnum
  Xmax :: jsnum
  M :: jsnum
  SD :: jsnum
  Cv :: jsnum
  Cs :: jsnum

definition sumSqDiff :: "jsnum \<Rightarrow> jsnum list \<Rightarrow> jsnum" where
  "sumSqDiff mean X = foldl (\<lambda>acc val. acc + jpow (val - mean) (Fin 2)) (Fin 0) X"

definition sumCubeDiff :: "jsnum \<Rightarrow> jsnum list \<Rightarrow> jsnum" where
  "sumCubeDiff mean X = foldl (\<lambda>acc val. acc + jpow (val - mean) (Fin 3)) (Fin 0) X"

definition statistics :: "jsnum list \<Rightarrow> stats" where
  "statistics X =
     (let n = length X in
      if n = 0 then \<lparr>Xmin = Fin 0, Xmax = Fin 0, M = Fin 0, SD = Fin 0, Cv = Fin 0, Cs = Fin 0\<rparr>
      else
        let sum = foldl (\<lambda>acc val. acc + val) (Fin 0) X;
            mean = sum / Fin (real n);
            variance = (if n > 1 then sumSqDiff mean X / Fin (real n - 1) else Fin 0);
            stdDev = jsqrt variance;
            M2 = sumSqDiff mean X / Fin (real n);
            M3 = sumCubeDiff mean X / Fin (real n);
            skewness =
              (if n > 2 \<and> M2 > Fin 0
               then (jsqrt (Fin (real n * (real n - 1))) / Fin (real n - 2))
                    * (M3 / jpow M2 (Fin 1.5))
               else Fin 0);
            sortedX = sort_arr X;
            min = sortedX ! 0;
            max = sortedX ! (n - 1)
        in \<lparr>Xmin = min, Xmax = max, M = mean, SD = stdDev,
            Cv = (if \<not> jeq mean (Fin 0) then stdDev / mean else Fin 0),
            Cs = skewness\<rparr>)"

function Look :: "jsnum \<Rightarrow> jsnum" where
  "Look p =
     (if p \<le> Fin 0 \<or> p \<ge> Fin 1 then NaN
      else if jeq p (Fin 0.5) then Fin 0
      else if p < Fin 0.5 then - Look (Fin 1 - p)
      else
        let t = jsqrt (Fin (- 2) * jlog (Fin 1 - p));
            c0 = Fin 2.515517; c1 = Fin 0.802853; c2 = Fin 0.010328;
            d1 = Fin 1.432788; d2 = Fin 0.189269; d3 = Fin 0.001308;
            numerator = c0 + c1 * t + c2 * t * t;
            denominator = Fin 1 + d1 * t + d2 * t * t + d3 * t * t * t
        in t - numerator / denominator)"
  by pat_completeness auto
termination
proof (relation "measure (\<lambda>p. if p < Fin 0.5 then 1 else 0)")
  show "wf (measure (\<lambda>p. if p < Fin 0.5 then 1 else (0::nat)))" by simp
next
  fix p :: jsnum
  assume a: "\<not> (p \<le> Fin 0 \<or> p \<ge> Fin 1)" "p < Fin 0.5"
  then show "(Fin 1 - p, p) \<in> measure (\<lambda>p. if p < Fin 0.5 then 1 else (0::nat))"
    by (cases p)
       (auto simp: minus_jsnum_def less_jsnum_def less_eq_jsnum_def jsub_def jle_def jeq_def)
qed

declare Look.simps [simp del]

definition Extreme :: "jsnum \<Rightarrow> jsnum" where
  "Extreme px = (let Fx = Fin 1 - px in - jlog (- jlog Fx))"

section \<open>FrequencyAnalysis\<close>

text \<open>The codes of \<^verbatim>\<open>DistributionType\<close>.\<close>

abbreviation (input) Normal :: int where "Normal \<equiv> 1"
abbreviation (input) LogNormal :: int where "LogNormal \<equiv> 2"
abbreviation (input) PearsonType3 :: int where "PearsonType3 \<equiv> 3"
abbreviation (input) LogPearsonType3 :: int where "LogPearsonType3 \<equiv> 4"
abbreviation (input) ExtremeValueType1 :: int where "ExtremeValueType1 \<equiv> 5"

record freq_result =
  Kt :: jsnum
  Qest :: jsnum

text \<open>The callback \<^verbatim>\<open>val => (val > 1e-6 ? Math.log10(val) : 0)\<close> of the three \<^verbatim>\<open>map\<close> calls.\<close>

definition log10_clamped :: "jsnum \<Rightarrow> jsnum" where
  "log10_clamped val = (if val > Fin 0.000001 then jlog10 val else Fin 0)"

definition calculateNormal :: "jsnum \<Rightarrow> jsnum \<Rightarrow> jsnum \<Rightarrow> freq_result" where
  "calculateNormal mean std z = (let Kt = z; Qest = mean + Kt * std in \<lparr>Kt = Kt, Qest = Qest\<rparr>)"

definition calculateLogNormal :: "jsnum \<Rightarrow> jsnum \<Rightarrow> jsnum \<Rightarrow> freq_result" where
  "calculateLogNormal mean std z =
     (let r = calculateNormal mean std z; logQest = Qest r; Qest = jpow (Fin 10) logQest
      in \<lparr>Kt = Kt r, Qest = Qest\<rparr>)"

definition calculatePearsonType3 ::
  "jsnum \<Rightarrow> jsnum \<Rightarrow> jsnum \<Rightarrow> jsnum \<Rightarrow> jsnum \<Rightarrow> freq_result" where
  "calculatePearsonType3 mean std cs z tau =
     (let k = cs / Fin 6;
          z2 = z * z;
          k2 = k * k;
          Kt = z + (z2 - Fin 1) * k + (z * (z2 - Fin 6)) * k2 / Fin 3 - (z2 - Fin 1) * k2 * k
               + z * k2 * k2 + k2 * k2 * k / Fin 3;
          Qest = mean + std * Kt + tau
      in \<lparr>Kt = Kt, Qest = Qest\<rparr>)"

definition calculateLogPearsonType3 ::
  "jsnum \<Rightarrow> jsnum \<Rightarrow> jsnum \<Rightarrow> jsnum \<Rightarrow> jsnum \<Rightarrow> freq_result" where
  "calculateLogPearsonType3 mean std cs z tau =
     (let r = calculatePearsonType3 mean std cs z tau; logQest = Qest r;
          Qest = jpow (Fin 10) logQest
      in \<lparr>Kt = Kt r, Qest = Qest\<rparr>)"

definition calculateExtremeValueType1 :: "jsnum \<Rightarrow> jsnum \<Rightarrow> jsnum \<Rightarrow> freq_result" where
  "calculateExtremeValueType1 mean std px =
     (let alpha = Fin 0.7797 * std;
          mode = mean - Fin 0.5772 * alpha;
          Kt = Extreme px;
          Qest = mode + alpha * Kt
      in \<lparr>Kt = Kt, Qest = Qest\<rparr>)"

definition freq :: "int \<Rightarrow> jsnum list \<Rightarrow> jsnum \<Rightarrow> error + freq_result" where
  "freq distType y T =
     (let requiresLog = (distType = LogNormal \<or> distType = LogPearsonType3);
          x = (if requiresLog then map log10_clamped y else y);
          stats = statistics x;
          mean = M stats; std = SD stats; cs = Cs stats;
          tau = Fin 0;
          px = Fin 1 / T;
          z = Look (Fin 1 - px)
      in if distType = Normal then Inr (calculateNormal mean std z)
         else if distType = LogNormal then Inr (calculateLogNormal mean std z)
         else if distType = PearsonType3 then Inr (calculatePearsonType3 mean std cs z tau)
         else if distType = LogPearsonType3 then Inr (calculateLogPearsonType3 mean std cs z tau)
         else if distType = ExtremeValueType1 then Inr (calculateExtremeValueType1 mean std px)
         else Inl (UnsupportedDistributionType distType))"

section \<open>The Pearson III factor of KSTest and of ChiSquareTest\<close>

definition KSTest_getPearson3Kt :: "jsnum \<Rightarrow> jsnum \<Rightarrow> jsnum" where
  "KSTest_getPearson3Kt z skew =
     (if isNaN z then NaN
      else
        let k = skew / Fin 6;
            z2 = z * z;
            k2 = k * k
        in z + (z2 - Fin 1) * k + (Fin 1 / Fin 3) * z * (z2 - Fin 6) * k2 - (z2 - Fin 1) * k2 * k
           + z * k2 * k2 + (Fin 1 / Fin 3) * k2 * k2 * k)"

definition ChiSquareTest_getPearson3Kt :: "jsnum \<Rightarrow> jsnum \<Rightarrow> jsnum" where
  "ChiSquareTest_getPearson3Kt z skew =
     (let k = skew / Fin 6;
          z2 = z * z;
          k2 = k * k
      in z + (z2 - Fin 1) * k + (Fin 1 / Fin 3) * z * (z2 - Fin 6) * k2 - (z2 - Fin 1) * k2 * k
         + z * k2 * k2 + (Fin 1 / Fin 3) * k2 * k2 * k)"

section \<open>ChiSquareTest\<close>

definition ConfidenceLevelString :: "string list" where
  "ConfidenceLevelString = [''85%'', ''90%'', ''95%'', ''97.5%'', ''99%'']"

definition Chi2Table :: "real list list" where
  "Chi2Table =
    [[1.320, 2.706, 3.841, 5.020, 6.630], [2.775, 4.605, 5.991, 7.380, 9.210],
     [4.111, 6.251, 7.815, 9.350, 11.300], [5.390, 7.779, 9.488, 11.100, 13.300],
     [6.630, 9.236, 11.070, 12.800, 15.100], [7.840, 10.645, 12.592, 14.400, 16.800],
     [9.040, 12.017, 14.067, 16.000, 18.500], [10.202, 13.362, 15.507, 17.500, 20.100],
     [11.400, 14.684, 16.919, 19.000, 21.700], [12.500, 15.987, 18.307, 20.500, 23.200],
     [13.700, 17.275, 19.675, 21.900, 24.700], [14.800, 18.549, 21.026, 23.300, 26.200],
     [16.000, 19.812, 22.362, 24.700, 27.700], [17.100, 21.064, 23.685, 26.100, 29.100],
     [18.200, 22.307, 24.996, 27.500, 30.600], [19.400, 23.542, 26.296, 28.800, 32.000],
     [20.500, 24.769, 27.587, 30.200, 33.400], [21.600, 25.989, 28.869, 31.500, 34.800],
     [22.700, 27.204, 30.144, 32.900, 36.200], [23.800, 28.412, 31.410, 34.200, 37.600]]"

text \<open>
  The result object of \<^verbatim>\<open>_createChi2Results\<close>: four arrays used from index 1 (index 0 stays
  0), the observed counts as naturals. The field \<^verbatim>\<open>o\<close> is \<open>o'\<close> here and \<^verbatim>\<open>e\<close> is \<open>e'\<close>;
  \<^verbatim>\<open>Conclusion\<close>, a text rendered with \<^verbatim>\<open>toFixed\<close>, is left out.
\<close>

record chi2_results =
  lo :: "jsnum list"
  hi :: "jsnum list"
  o' :: "nat list"
  e' :: "jsnum list"
  ObsChi2Value :: jsnum
  EstChi2Value :: jsnum
  fitted :: bool
  ConfidenceLevel :: string

text \<open>
  What \<^verbatim>\<open>chi2Test\<close> returns: the short object of the invalid-index path (the index, the
  message and \<^verbatim>\<open>fitted: false\<close>) or the full results.
\<close>

datatype chi2_return =
    Chi2Invalid int string bool
  | Chi2Results chi2_results

fun return_fitted :: "chi2_return \<Rightarrow> bool" where
  "return_fitted (Chi2Invalid c msg f) = f"
| "return_fitted (Chi2Results r) = fitted r"

text \<open>
  An assignment \<^verbatim>\<open>a[i] = v\<close>: in range it overwrites, at the end it appends, beyond the end
  JavaScript leaves holes (read as \<^verbatim>\<open>undefined\<close>, \<^verbatim>\<open>NaN\<close> to every numeric operator).
\<close>

definition set_at :: "jsnum list \<Rightarrow> nat \<Rightarrow> jsnum \<Rightarrow> jsnum list" where
  "set_at a i v = (if i < length a then a[i := v] else a @ replicate (i - length a) NaN @ [v])"

definition createChi2Results :: "nat \<Rightarrow> chi2_results" where
  "createChi2Results intervalCount =
     (let size = intervalCount + 1
      in \<lparr>lo = replicate size (Fin 0), hi = replicate size (Fin 0),
          o' = replicate size 0, e' = replicate size (Fin 0),
          ObsChi2Value = Fin 0, EstChi2Value = Fin 0, fitted = False, ConfidenceLevel = []\<rparr>)"

text \<open>The \<^verbatim>\<open>switch\<close> of \<^verbatim>\<open>_divideIntoBins\<close>: the upper edge \<^verbatim>\<open>hi_i\<close> of bin \<open>i\<close>.\<close>

definition hi_i :: "int \<Rightarrow> jsnum \<Rightarrow> jsnum \<Rightarrow> jsnum \<Rightarrow> nat \<Rightarrow> nat \<Rightarrow> jsnum" where
  "hi_i distType mean std skew intervalCount i =
     (let cumulativeProb = Fin (real i) / Fin (real intervalCount);
          exceedanceProb = Fin 1 - cumulativeProb
      in if distType = Normal \<or> distType = LogNormal then
           (let z = Look cumulativeProb in mean + std * z)
         else if distType = PearsonType3 \<or> distType = LogPearsonType3 then
           (let z = Look cumulativeProb;
                kt = ChiSquareTest_getPearson3Kt z skew
            in mean + std * kt)
         else if distType = ExtremeValueType1 then
           (let alpha = Fin 0.7797 * std;
                mode = mean - Fin 0.5772 * alpha;
                kt = Extreme exceedanceProb
            in mode + alpha * kt)
         else Fin 0)"

text \<open>One round of the loop of \<^verbatim>\<open>_divideIntoBins\<close>.\<close>

definition bins_step ::
  "int \<Rightarrow> jsnum \<Rightarrow> jsnum \<Rightarrow> jsnum \<Rightarrow> nat \<Rightarrow> chi2_results \<Rightarrow> nat \<Rightarrow> chi2_results" where
  "bins_step distType mean std skew intervalCount results i =
     (let r1 = (if i < intervalCount
                then results\<lparr>hi := (hi results)[i := hi_i distType mean std skew intervalCount i]\<rparr>
                else results)
      in if i > 1 then r1\<lparr>lo := (lo r1)[i := hi r1 ! (i - 1)]\<rparr> else r1)"

text \<open>One test of the inner loop of \<^verbatim>\<open>_countFrequencies\<close>, and the two loops.\<close>

definition count_value :: "nat \<Rightarrow> chi2_results \<Rightarrow> jsnum \<Rightarrow> chi2_results" where
  "count_value i results val =
     (if val > lo results ! i \<and> val < hi results ! i
      then results\<lparr>o' := (o' results)[i := o' results ! i + 1]\<rparr>
      else results)"

definition countFrequencies :: "jsnum list \<Rightarrow> chi2_results \<Rightarrow> nat \<Rightarrow> chi2_results" where
  "countFrequencies data results intervalCount =
     foldl (\<lambda>r i. foldl (count_value i) r data) results [1..<Suc intervalCount]"

definition divideIntoBins :: "jsnum list \<Rightarrow> nat \<Rightarrow> int \<Rightarrow> chi2_results" where
  "divideIntoBins data intervalCount distType =
     (let requiresLog = (distType = LogNormal \<or> distType = LogPearsonType3);
          transformedData = (if requiresLog then map log10_clamped data else data);
          stats = statistics transformedData;
          mean = M stats; std = SD stats; skew = Cs stats;
          low = Xmin stats; high = Xmax stats;
          r0 = createChi2Results intervalCount;
          r1 = r0\<lparr>lo := set_at (lo r0) 1 (low - Fin 2)\<rparr>;
          r2 = foldl (bins_step distType mean std skew intervalCount) r1 [1..<Suc intervalCount];
          r3 = r2\<lparr>hi := set_at (hi r2) intervalCount (high + Fin 2)\<rparr>
      in countFrequencies transformedData r3 intervalCount)"

text \<open>One round of the first loop of \<^verbatim>\<open>_calculateChiSquare\<close>, on the results and \<^verbatim>\<open>chi2Stat\<close>.\<close>

definition chi2_step :: "nat \<Rightarrow> nat \<Rightarrow> chi2_results \<times> jsnum \<Rightarrow> nat \<Rightarrow> chi2_results \<times> jsnum" where
  "chi2_step n intervalCount acc i =
     (let results = (fst acc)\<lparr>e' := (e' (fst acc))[i := Fin (real n) / Fin (real intervalCount)]\<rparr>;
          temp = jpow (Fin (real (o' results ! i)) - e' results ! i) (Fin 2) / e' results ! i
      in (results, snd acc + temp))"

definition degreesOfFreedom :: "int \<Rightarrow> nat \<Rightarrow> int" where
  "degreesOfFreedom distType intervalCount =
     (let df = (if distType = ExtremeValueType1 then int intervalCount - 3
                else if distType = LogPearsonType3 then int intervalCount - 4
                else if distType = Normal \<or> distType = LogNormal then int intervalCount - 3
                else if distType = PearsonType3 then int intervalCount - 4
                else 1)
      in max 1 df)"

definition calculateChiSquare :: "jsnum list \<Rightarrow> nat \<Rightarrow> nat \<Rightarrow> int \<Rightarrow> chi2_results" where
  "calculateChiSquare data intervalCount confidenceIndex distType =
     (let results0 = divideIntoBins data intervalCount distType;
          n = length data;
          acc = foldl (chi2_step n intervalCount) (results0, Fin 0) [1..<Suc intervalCount];
          results = fst acc; chi2Stat = snd acc;
          df = degreesOfFreedom distType intervalCount;
          criticalValue = (if df > 0 \<and> df \<le> int (length Chi2Table)
                           then Fin (Chi2Table ! nat (df - 1) ! confidenceIndex)
                           else PInf)
      in results\<lparr>ConfidenceLevel := ConfidenceLevelString ! confidenceIndex,
                 EstChi2Value := criticalValue,
                 ObsChi2Value := chi2Stat,
                 fitted := chi2Stat < criticalValue\<rparr>)"

text \<open>
  \<^verbatim>\<open>new Array(size)\<close> throws a \<^verbatim>\<open>RangeError\<close> unless \<open>size\<close> is a non-negative integer
  (below \<open>2\<^sup>3\<^sup>2\<close>, a bound the size \<open>intervalCount + 1\<close> of a real array's length never
  reaches, so it is not written here); an empty sample gives
  \<^verbatim>\<open>intervalCount = -Infinity\<close> and ends there.
\<close>

fun array_length :: "jsnum \<Rightarrow> nat option" where
  "array_length (Fin c) = (if is_integer c \<and> 0 \<le> c then Some (nat \<lfloor>c\<rfloor>) else None)"
| "array_length _ = None"

definition chi2Test :: "int \<Rightarrow> jsnum list \<Rightarrow> int \<Rightarrow> error + chi2_return" where
  "chi2Test distType data confidenceIndex =
     (if confidenceIndex < 0 \<or> confidenceIndex \<ge> int (length ConfidenceLevelString)
      then Inr (Chi2Invalid confidenceIndex
                  ''Confidence index is invalid! Must be between [0, 4]'' False)
      else
        let sortedData = sort_arr data;
            intervalCount = Fin 1 + jround (Fin 3.3 * jlog10 (Fin (real (length data))))
        in case array_length (intervalCount + Fin 1) of
             None \<Rightarrow> Inl RangeError
           | Some len \<Rightarrow>
               Inr (Chi2Results
                      (calculateChiSquare sortedData (len - 1) (nat confidenceIndex) distType)))"

section \<open>KSTest\<close>

definition KSalpha :: "real list" where
  "KSalpha = [0.775, 0.819, 0.895, 0.995, 1.035]"

text \<open>
  The constructor, on an integer index (a call without argument is \<open>KSTest_new 2\<close>): it
  throws for an index outside the table, and otherwise keeps the index and its \<^verbatim>\<open>alpha\<close>.
\<close>

record ks_test =
  confidenceLevelIndex :: int
  alpha :: jsnum

definition KSTest_new :: "int \<Rightarrow> error + ks_test" where
  "KSTest_new idx =
     (if idx < 0 \<or> idx \<ge> int (length KSalpha) then Inl InvalidConfidenceLevelIndex
      else Inr \<lparr>confidenceLevelIndex = idx, alpha = Fin (KSalpha ! nat idx)\<rparr>)"

definition sortDescending :: "jsnum list \<Rightarrow> jsnum list" where
  "sortDescending data = sort_by (\<lambda>a b. b - a) data"

definition plottingPosition :: "int \<Rightarrow> jsnum \<Rightarrow> jsnum \<Rightarrow> jsnum" where
  "plottingPosition method rank n =
     (let b = (if method = 1 then Fin 0.5
               else if method = 2 then Fin 0.3
               else if method = 3 then Fin 0
               else if method = 4 then Fin 3 / Fin 8
               else if method = 5 then Fin 1 / Fin 3
               else if method = 6 then Fin 0.44
               else Fin 0)
      in (rank - b) / (n + Fin 1 - Fin 2 * b))"

record ks_results =
  obs :: "jsnum list"
  est :: "jsnum list"
  lowerBound :: "jsnum list"
  upperBound :: "jsnum list"
  mark :: "char list"
  prob :: "jsnum list"
  Ca :: jsnum
  fitted :: bool

text \<open>
  The \<^verbatim>\<open>switch\<close> of \<^verbatim>\<open>runTest\<close>: the triple \<^verbatim>\<open>(zEst, zLow, zHigh)\<close> of one rank, or the
  exception of its \<^verbatim>\<open>default\<close> branch.
\<close>

definition ks_bounds ::
  "int \<Rightarrow> jsnum \<Rightarrow> jsnum \<Rightarrow> jsnum \<Rightarrow> jsnum \<Rightarrow> jsnum \<Rightarrow> jsnum
   \<Rightarrow> error + jsnum \<times> jsnum \<times> jsnum" where
  "ks_bounds distType mean std skew px probLower probUpper =
     (if distType = Normal \<or> distType = LogNormal then
        (let ktEst = Look (Fin 1 - px);
             ktLow = Look (Fin 1 - probLower);
             ktHigh = Look (Fin 1 - probUpper)
         in Inr (mean + std * ktEst,
                 (if \<not> isNaN ktLow then mean + std * ktLow else NaN),
                 (if \<not> isNaN ktHigh then mean + std * ktHigh else NaN)))
      else if distType = PearsonType3 \<or> distType = LogPearsonType3 then
        (let ktEst = KSTest_getPearson3Kt (Look (Fin 1 - px)) skew;
             ktLow = KSTest_getPearson3Kt (Look (Fin 1 - probLower)) skew;
             ktHigh = KSTest_getPearson3Kt (Look (Fin 1 - probUpper)) skew
         in Inr (mean + std * ktEst,
                 (if \<not> isNaN ktLow then mean + std * ktLow else NaN),
                 (if \<not> isNaN ktHigh then mean + std * ktHigh else NaN)))
      else if distType = ExtremeValueType1 then
        (let alpha = Fin 0.7797 * std;
             mode = mean - Fin 0.5772 * alpha;
             ktEst = Extreme px;
             ktLow = Extreme probLower;
             ktHigh = Extreme probUpper
         in Inr (mode + alpha * ktEst,
                 (if \<not> isNaN ktLow then mode + alpha * ktLow else NaN),
                 (if \<not> isNaN ktHigh then mode + alpha * ktHigh else NaN)))
      else Inl (UnsupportedDistributionType distType))"

text \<open>
  The end of one round of the loop of \<^verbatim>\<open>runTest\<close>: the values pushed on the five arrays,
  and the two tests that choose the mark and clear \<^verbatim>\<open>fitted\<close>.
\<close>

definition ks_mark ::
  "jsnum \<Rightarrow> jsnum \<Rightarrow> jsnum \<Rightarrow> jsnum \<Rightarrow> jsnum \<Rightarrow> ks_results \<Rightarrow> ks_results" where
  "ks_mark px zEst zLow zHigh observedValue results =
     (let below = (\<not> isNaN zLow \<and> observedValue < zLow);
          above = (\<not> isNaN zHigh \<and> observedValue > zHigh);
          currentMark = (if above then CHR ''+'' else if below then CHR ''-'' else CHR ''G'')
      in results\<lparr>prob := prob results @ [px],
                 est := est results @ [zEst],
                 lowerBound := lowerBound results @ [zLow],
                 upperBound := upperBound results @ [zHigh],
                 mark := mark results @ [currentMark],
                 fitted := (if below \<or> above then False else ks_results.fitted results)\<rparr>)"

text \<open>One round of the loop of \<^verbatim>\<open>runTest\<close>, for the rank \<open>i\<close>.\<close>

definition ks_step ::
  "int \<Rightarrow> nat \<Rightarrow> jsnum \<Rightarrow> jsnum \<Rightarrow> jsnum \<Rightarrow> jsnum \<Rightarrow> jsnum list \<Rightarrow> nat \<Rightarrow> ks_results
   \<Rightarrow> error + ks_results" where
  "ks_step distType N ca mean std skew sortedData i results =
     (let requiresLog = (distType = LogNormal \<or> distType = LogPearsonType3);
          rank = Fin (real i);
          px = plottingPosition 3 rank (Fin (real N));
          probLower = (rank - Fin 1) / Fin (real N) + ca;
          probUpper = rank / Fin (real N) - ca
      in case ks_bounds distType mean std skew px probLower probUpper of
           Inl err \<Rightarrow> Inl err
         | Inr (zEst0, zLow0, zHigh0) \<Rightarrow>
             (let zEst = (if requiresLog then jpow (Fin 10) zEst0 else zEst0);
                  zLow = (if requiresLog \<and> \<not> isNaN zLow0 then jpow (Fin 10) zLow0 else zLow0);
                  zHigh = (if requiresLog \<and> \<not> isNaN zHigh0 then jpow (Fin 10) zHigh0 else zHigh0);
                  observedValue = sortedData ! (i - 1)
              in Inr (ks_mark px zEst zLow zHigh observedValue results)))"

fun ks_loop ::
  "int \<Rightarrow> nat \<Rightarrow> jsnum \<Rightarrow> jsnum \<Rightarrow> jsnum \<Rightarrow> jsnum \<Rightarrow> jsnum list \<Rightarrow> nat list \<Rightarrow> ks_results
   \<Rightarrow> error + ks_results" where
  "ks_loop distType N ca mean std skew sortedData [] results = Inr results"
| "ks_loop distType N ca mean std skew sortedData (i # rest) results =
     (case ks_step distType N ca mean std skew sortedData i results of
        Inl err \<Rightarrow> Inl err
      | Inr results' \<Rightarrow> ks_loop distType N ca mean std skew sortedData rest results')"

definition runTest :: "ks_test \<Rightarrow> int \<Rightarrow> jsnum list \<Rightarrow> error + ks_results" where
  "runTest this distType data =
     (let N = length data in
      if N = 0 then Inl EmptyInputData
      else
        let sortedData = sortDescending data;
            Ca = alpha this / (jsqrt (Fin (real N)) - Fin 0.01 + Fin 0.85 / jsqrt (Fin (real N)));
            requiresLog = (distType = LogNormal \<or> distType = LogPearsonType3);
            transformedData = (if requiresLog then map log10_clamped sortedData else sortedData);
            stats = statistics transformedData;
            mean = M stats; std = SD stats; skew = Cs stats;
            results = \<lparr>obs = sortedData, est = [], lowerBound = [], upperBound = [],
                       mark = [], prob = [], Ca = Ca, fitted = True\<rparr>
        in ks_loop distType N Ca mean std skew sortedData [1..<Suc N] results)"

section \<open>The arrays in memory\<close>

text \<open>
  The functions above compute on the contents of the arrays. A JavaScript array is an
  object that \<^verbatim>\<open>sort\<close> reorders in place, so what a call does to the array of its caller
  is a matter of which array each operation works on. The store keeps the number arrays
  by address; \<open>lim\<close> is the first address not yet in use. Each entry point below performs
  the array operations of its source in their order (\<^verbatim>\<open>slice\<close>, the spread \<^verbatim>\<open>[...data]\<close> and
  \<^verbatim>\<open>map\<close> create an array, \<^verbatim>\<open>sort\<close> reorders the array it is called on) and returns the
  value the function above computes from the contents of its argument; the arrays a
  call creates for its result are allocated with the contents the loops leave in them.
\<close>

type_synonym addr = nat

record store =
  arrays :: "addr \<Rightarrow> jsnum list"
  lim :: addr

definition alloc :: "jsnum list \<Rightarrow> store \<Rightarrow> addr \<times> store" where
  "alloc xs h = (lim h, h\<lparr>arrays := (arrays h)(lim h := xs), lim := Suc (lim h)\<rparr>)"

text \<open>\<^verbatim>\<open>Array.prototype.sort(cmp)\<close>: the array at \<open>a\<close> itself is reordered.\<close>

definition sort_in_place :: "(jsnum \<Rightarrow> jsnum \<Rightarrow> jsnum) \<Rightarrow> addr \<Rightarrow> store \<Rightarrow> store" where
  "sort_in_place cmp a h = h\<lparr>arrays := (arrays h)(a := sort_by cmp (arrays h a))\<rparr>"

text \<open>\<^verbatim>\<open>arr.slice().sort((a, b) => a - b)\<close> and \<^verbatim>\<open>[...data].sort((a, b) => b - a)\<close>.\<close>

definition sort_st :: "addr \<Rightarrow> store \<Rightarrow> addr \<times> store" where
  "sort_st arr h =
     (let (copy, h1) = alloc (arrays h arr) h
      in (copy, sort_in_place (\<lambda>a b. a - b) copy h1))"

definition sortDescending_st :: "addr \<Rightarrow> store \<Rightarrow> addr \<times> store" where
  "sortDescending_st data h =
     (let (copy, h1) = alloc (arrays h data) h
      in (copy, sort_in_place (\<lambda>a b. b - a) copy h1))"

text \<open>\<^verbatim>\<open>statistics\<close> returns before \<^verbatim>\<open>this.sort(X)\<close> when the array is empty.\<close>

definition statistics_st :: "addr \<Rightarrow> store \<Rightarrow> stats \<times> store" where
  "statistics_st X h =
     (if length (arrays h X) = 0 then (statistics (arrays h X), h)
      else let (sortedX, h1) = sort_st X h in (statistics (arrays h X), h1))"

text \<open>\<^verbatim>\<open>freq\<close>: \<^verbatim>\<open>x\<close> is \<^verbatim>\<open>y.map(...)\<close> or \<^verbatim>\<open>y.slice()\<close>, then \<^verbatim>\<open>statistics(x)\<close>.\<close>

definition freq_st :: "int \<Rightarrow> addr \<Rightarrow> jsnum \<Rightarrow> store \<Rightarrow> (error + freq_result) \<times> store" where
  "freq_st distType y T h =
     (let requiresLog = (distType = LogNormal \<or> distType = LogPearsonType3);
          (x, h1) = (if requiresLog then alloc (map log10_clamped (arrays h y)) h
                     else alloc (arrays h y) h);
          (stats, h2) = statistics_st x h1
      in (freq distType (arrays h y) T, h2))"

text \<open>
  \<^verbatim>\<open>runTest\<close>: the exception for an empty array comes first; then \<^verbatim>\<open>sortDescending(data)\<close>,
  \<^verbatim>\<open>transformedData\<close> (a new array from \<^verbatim>\<open>map\<close>, or the sorted copy itself),
  \<^verbatim>\<open>statistics(transformedData)\<close>, and the arrays \<^verbatim>\<open>est\<close>, \<^verbatim>\<open>lowerBound\<close>, \<^verbatim>\<open>upperBound\<close> and
  \<^verbatim>\<open>prob\<close> of the result (\<^verbatim>\<open>obs\<close> is the sorted copy; the marks are not numbers and stay
  in the value).
\<close>

definition runTest_st ::
  "ks_test \<Rightarrow> int \<Rightarrow> addr \<Rightarrow> store \<Rightarrow> (error + ks_results) \<times> store" where
  "runTest_st this distType data h =
     (if length (arrays h data) = 0 then (Inl EmptyInputData, h)
      else
        let (sortedData, h1) = sortDescending_st data h;
            requiresLog = (distType = LogNormal \<or> distType = LogPearsonType3);
            (transformedData, h2) =
              (if requiresLog then alloc (map log10_clamped (arrays h1 sortedData)) h1
               else (sortedData, h1));
            (stats, h3) = statistics_st transformedData h2
        in case runTest this distType (arrays h data) of
             Inl err \<Rightarrow> (Inl err, h3)
           | Inr r \<Rightarrow>
               (let (est_a, h4) = alloc (est r) h3;
                    (lowerBound_a, h5) = alloc (lowerBound r) h4;
                    (upperBound_a, h6) = alloc (upperBound r) h5;
                    (prob_a, h7) = alloc (prob r) h6
                in (Inr r, h7)))"

text \<open>
  \<^verbatim>\<open>chi2Test\<close>: the invalid index returns at once; then \<^verbatim>\<open>this.utils.sort(data)\<close>,
  \<^verbatim>\<open>transformedData\<close> (from \<^verbatim>\<open>map\<close>, or the sorted copy itself),
  \<^verbatim>\<open>statistics(transformedData)\<close>, and the arrays \<^verbatim>\<open>lo\<close>, \<^verbatim>\<open>hi\<close>, \<^verbatim>\<open>o\<close> and \<^verbatim>\<open>e\<close> of the result.
\<close>

definition chi2Test_st ::
  "int \<Rightarrow> addr \<Rightarrow> int \<Rightarrow> store \<Rightarrow> (error + chi2_return) \<times> store" where
  "chi2Test_st distType data confidenceIndex h =
     (if confidenceIndex < 0 \<or> confidenceIndex \<ge> int (length ConfidenceLevelString)
      then (chi2Test distType (arrays h data) confidenceIndex, h)
      else
        let (sortedData, h1) = sort_st data h;
            requiresLog = (distType = LogNormal \<or> distType = LogPearsonType3);
            (transformedData, h2) =
              (if requiresLog then alloc (map log10_clamped (arrays h1 sortedData)) h1
               else (sortedData, h1));
            (stats, h3) = statistics_st transformedData h2
        in case chi2Test distType (arrays h data) confidenceIndex of
             Inr (Chi2Results r) \<Rightarrow>
               (let (lo_a, h4) = alloc (lo r) h3;
                    (hi_a, h5) = alloc (hi r) h4;
                    (o_a, h6) = alloc (map (\<lambda>c. Fin (real c)) (o' r)) h5;
                    (e_a, h7) = alloc (e' r) h6
                in (Inr (Chi2Results r), h7))
           | other \<Rightarrow> (other, h3))"

text \<open>
  A call that takes the store from \<open>h\<close> to \<open>h'\<close> leaves every array of \<open>h\<close> as it was.
\<close>

definition unchanged :: "store \<Rightarrow> store \<Rightarrow> bool" where
  "unchanged h h' = (lim h \<le> lim h' \<and> (\<forall>a<lim h. arrays h' a = arrays h a))"

section \<open>Binary64 arithmetic\<close>

text \<open>
  The arithmetic of the program itself: every operation returns the double nearest to
  the exact result, a tie going to the even significand. \<open>rne m\<close> is the integer nearest
  to \<open>m\<close> under that rule, and \<open>b64 x\<close> the double nearest to the real \<open>x\<close>: with
  \<open>2\<^sup>e \<le> \<bar>x\<bar> < 2\<^sup>e\<^sup>+\<^sup>1\<close> it is the nearest multiple of \<open>2\<^sup>e\<^sup>-\<^sup>5\<^sup>2\<close>. The significand has 53
  bits at every magnitude: overflow to \<^verbatim>\<open>Infinity\<close>, the subnormal range and the sign of
  zero are left out (no value below comes near them).
\<close>

definition rne :: "real \<Rightarrow> int" where
  "rne m =
     (let f = \<lfloor>m\<rfloor>; d = m - of_int f
      in if d < 1 / 2 then f else if 1 / 2 < d then f + 1 else if even f then f else f + 1)"

definition b64 :: "real \<Rightarrow> real" where
  "b64 x =
     (if x = 0 then 0
      else of_int (rne (x / 2 powr (of_int \<lfloor>log 2 \<bar>x\<bar>\<rfloor> - 52)))
           * 2 powr (of_int \<lfloor>log 2 \<bar>x\<bar>\<rfloor> - 52))"

text \<open>
  A \<open>double\<close> is a number on which the operators round: the special values behave as
  before, negation and the comparisons are exact. \<open>lit x\<close> is the decimal literal \<open>x\<close> of
  the source, the double nearest to it, and \<open>strict_equal\<close> is \<^verbatim>\<open>===\<close>. \<^verbatim>\<open>Math.sqrt\<close> and
  \<^verbatim>\<open>Math.log\<close> return the double nearest to the exact value (ECMAScript asks this of
  \<^verbatim>\<open>Math.sqrt\<close>; of the logarithm the statements below use the sign only).
\<close>

fun rnd :: "jsnum \<Rightarrow> jsnum" where
  "rnd (Fin x) = Fin (b64 x)"
| "rnd v = v"

datatype double = Double jsnum

fun number :: "double \<Rightarrow> jsnum" where
  "number (Double a) = a"

instantiation double :: "{plus, minus, uminus, times, inverse, ord}"
begin

definition plus_double :: "double \<Rightarrow> double \<Rightarrow> double" where
  "plus_double a b = Double (rnd (number a + number b))"

definition minus_double :: "double \<Rightarrow> double \<Rightarrow> double" where
  "minus_double a b = Double (rnd (number a - number b))"

definition uminus_double :: "double \<Rightarrow> double" where
  "uminus_double a = Double (- number a)"

definition times_double :: "double \<Rightarrow> double \<Rightarrow> double" where
  "times_double a b = Double (rnd (number a * number b))"

definition divide_double :: "double \<Rightarrow> double \<Rightarrow> double" where
  "divide_double a b = Double (rnd (number a / number b))"

definition inverse_double :: "double \<Rightarrow> double" where
  "inverse_double a = Double (rnd (Fin 1 / number a))"

definition less_double :: "double \<Rightarrow> double \<Rightarrow> bool" where
  "less_double a b = (number a < number b)"

definition less_eq_double :: "double \<Rightarrow> double \<Rightarrow> bool" where
  "less_eq_double a b = (number a \<le> number b)"

instance ..

end

definition lit :: "real \<Rightarrow> double" where
  "lit x = Double (Fin (b64 x))"

definition strict_equal :: "double \<Rightarrow> double \<Rightarrow> bool" where
  "strict_equal a b = jeq (number a) (number b)"

definition Math_sqrt :: "double \<Rightarrow> double" where
  "Math_sqrt a = Double (rnd (jsqrt (number a)))"

definition Math_log :: "double \<Rightarrow> double" where
  "Math_log a = Double (rnd (jlog (number a)))"

text \<open>
  \<^verbatim>\<open>Look\<close> of \<^verbatim>\<open>RainUtils\<close> over this arithmetic, operation by operation as the source
  writes it.
\<close>

function Look64 :: "double \<Rightarrow> double" where
  "Look64 p =
     (if p \<le> lit 0 \<or> p \<ge> lit 1 then Double NaN
      else if strict_equal p (lit 0.5) then lit 0
      else if p < lit 0.5 then - Look64 (lit 1 - p)
      else
        let t = Math_sqrt (- lit 2.0 * Math_log (lit 1.0 - p));
            c0 = lit 2.515517; c1 = lit 0.802853; c2 = lit 0.010328;
            d1 = lit 1.432788; d2 = lit 0.189269; d3 = lit 0.001308;
            numerator = c0 + c1 * t + c2 * t * t;
            denominator = lit 1 + d1 * t + d2 * t * t + d3 * t * t * t
        in t - numerator / denominator)"
  by pat_completeness auto





section \<open>Quantities the statements refer to\<close>

text \<open>
  The rational approximation of \<^verbatim>\<open>Look\<close> as a function of the real \<open>t\<close>, the textbook
  sample mean and sample standard deviation (denominator \<open>n - 1\<close>) of a finite sample,
  and the number of parameters a distribution estimates from the sample.
\<close>

definition look_poly :: "real \<Rightarrow> real" where
  "look_poly t = t - (2.515517 + 0.802853 * t + 0.010328 * t * t)
                     / (1 + 1.432788 * t + 0.189269 * t * t + 0.001308 * t * t * t)"

definition sample_mean :: "real list \<Rightarrow> real" where
  "sample_mean xs = (if xs = [] then 0 else sum_list xs / real (length xs))"

definition sample_sd :: "real list \<Rightarrow> real" where
  "sample_sd xs =
     (if length xs \<le> 1 then 0
      else sqrt ((\<Sum>x\<leftarrow>xs. (x - sample_mean xs)\<^sup>2) / (real (length xs) - 1)))"

text \<open>Sturges' count \<^verbatim>\<open>1 + Math.round(3.3 * Math.log10(n))\<close> of a sample of \<open>n \<ge> 1\<close> values.\<close>

definition sturges :: "nat \<Rightarrow> nat" where
  "sturges n = nat (1 + \<lfloor>3.3 * log 10 (real n) + 1 / 2\<rfloor>)"


text \<open>
  The sample the bins are counted on (the \<^verbatim>\<open>transformedData\<close> of the source), the total of
  the observed counts over the bins 1 to \<^verbatim>\<open>intervalCount\<close>, and the test of
  \<^verbatim>\<open>_countFrequencies\<close> for a value and bin \<open>i\<close> of a result:
  \<^verbatim>\<open>value > results.lo[i] && value < results.hi[i]\<close>.
\<close>

definition transformedData :: "int \<Rightarrow> jsnum list \<Rightarrow> jsnum list" where
  "transformedData distType data =
     (if distType = LogNormal \<or> distType = LogPearsonType3 then map log10_clamped data
      else data)"



text \<open>A double that is a finite number, and one that is a finite number above 0.\<close>

definition finite64 :: "double \<Rightarrow> bool" where
  "finite64 a = (case number a of Fin x \<Rightarrow> True | _ \<Rightarrow> False)"

definition positive :: "double \<Rightarrow> bool" where
  "positive a = (case number a of Fin x \<Rightarrow> 0 < x | _ \<Rightarrow> False)"


text \<open>
  For the rank at index \<open>i\<close> of a KS result: the observation lies strictly below a lower
  bound that is not \<^verbatim>\<open>NaN\<close>, or strictly above an upper bound that is not \<^verbatim>\<open>NaN\<close>; and the
  mark the two tests of the loop leave (the second test, for the upper bound, is the
  later assignment).
\<close>

definition below_lower :: "ks_results \<Rightarrow> nat \<Rightarrow> bool" where
  "below_lower r i = (\<not> isNaN (lowerBound r ! i) \<and> obs r ! i < lowerBound r ! i)"

definition above_upper :: "ks_results \<Rightarrow> nat \<Rightarrow> bool" where
  "above_upper r i = (\<not> isNaN (upperBound r ! i) \<and> obs r ! i > upperBound r ! i)"

definition mark_of :: "ks_results \<Rightarrow> nat \<Rightarrow> char" where
  "mark_of r i =
     (if above_upper r i then CHR ''+'' else if below_lower r i then CHR ''-'' else CHR ''G'')"

text \<open>
  What holds of the results after the ranks 1 to \<open>n\<close> of the loop of \<^verbatim>\<open>runTest\<close>: five arrays
  of length \<open>n\<close>, \<^verbatim>\<open>fitted\<close> true exactly when none of these ranks is out of its bounds, and
  each mark as the two tests leave it.
\<close>

definition ks_inv :: "jsnum list \<Rightarrow> nat \<Rightarrow> ks_results \<Rightarrow> bool" where
  "ks_inv sortedData n r =
     (obs r = sortedData \<and> length (est r) = n \<and> length (lowerBound r) = n
      \<and> length (upperBound r) = n \<and> length (mark r) = n \<and> length (prob r) = n
      \<and> ks_results.fitted r = (\<not> (\<exists>i<n. below_lower r i \<or> above_upper r i))
      \<and> (\<forall>i<n. mark r ! i = mark_of r i))"

section \<open>Arithmetic on the special values\<close>

lemmas jsops = plus_jsnum_def minus_jsnum_def uminus_jsnum_def times_jsnum_def divide_jsnum_def
  less_jsnum_def less_eq_jsnum_def jsub_def jle_def jeq_def

lemma jadd_NaN_right [simp]: "jadd a NaN = NaN"
  by (cases a) simp_all

lemma jmul_NaN_right [simp]: "jmul a NaN = NaN"
  by (cases a) simp_all

lemma jdiv_NaN_right [simp]: "jdiv a NaN = NaN"
  by (cases a) simp_all

lemma jlt_NaN_right [simp]: "jlt a NaN = False"
  by (cases a) simp_all

lemma jpow_square: "jpow (Fin d) (Fin 2) = Fin (d\<^sup>2)"
proof -
  have i2: "is_integer 2" "\<not> is_odd_integer 2"
    by (simp_all add: is_integer_def is_odd_integer_def)
  show ?thesis
    using i2 by (cases "d = 0"; cases "0 < d") (simp_all add: powr_numeral)
qed

lemma jpow_cube: "jpow (Fin d) (Fin 3) = Fin (d ^ 3)"
proof -
  have i3: "is_odd_integer 3"
    by (simp add: is_integer_def is_odd_integer_def)
  show ?thesis
    using i3 by (cases "d = 0"; cases "0 < d") (simp_all add: powr_numeral)
qed

lemma jlt_irrefl [simp]: "\<not> jlt a a"
  by (cases a) auto

section \<open>Look and Extreme\<close>

lemma Look_outside: "p \<le> Fin 0 \<or> p \<ge> Fin 1 \<Longrightarrow> Look p = NaN"
  by (simp add: Look.simps)

lemma Look_half: "Look (Fin 0.5) = Fin 0"
  by (simp add: Look.simps jsops)

lemma Look_NaN: "Look NaN = NaN"
  by (simp add: Look.simps jsops)

lemma Look_upper:
  assumes "1 / 2 < r" and "r < 1"
  shows "Look (Fin r) = Fin (look_poly (sqrt (- (2 * ln (1 - r)))))"
proof -
  define t where "t = sqrt (- (2 * ln (1 - r)))"
  have neg: "ln (1 - r) < 0" using assms by simp
  then have t0: "0 \<le> t" by (simp add: t_def)
  have "0 \<le> 1.432788 * t" "0 \<le> 0.189269 * t * t" "0 \<le> 0.001308 * t * t * t"
    using t0 by simp_all
  then have den: "1 + 1.432788 * t + 0.189269 * t * t + 0.001308 * t * t * t \<noteq> 0"
    by linarith
  have "Look (Fin r) = Fin (look_poly t)"
    by (subst Look.simps, use assms neg den in
        \<open>simp add: jsops Let_def look_poly_def t_def[symmetric]\<close>)
  then show ?thesis by (simp add: t_def)
qed

lemma Look_lower:
  assumes "0 < r" and "r < 1 / 2"
  shows "Look (Fin r) = Fin (- look_poly (sqrt (- (2 * ln r))))"
  by (subst Look.simps, use assms Look_upper[of "1 - r"] in \<open>simp add: jsops\<close>)

lemma Look_inside:
  assumes "0 < r" and "r < 1"
  shows "\<exists>q. Look (Fin r) = Fin q"
proof -
  consider "r < 1 / 2" | "r = 1 / 2" | "1 / 2 < r" by linarith
  then show ?thesis
  proof cases
    case 1 then show ?thesis using assms Look_lower by blast
  next
    case 2
    then have "r = 0.5" by simp
    then show ?thesis using Look_half by blast
  next
    case 3 then show ?thesis using assms Look_upper by blast
  qed
qed

section \<open>Rounding to the nearest double\<close>

lemmas dops = plus_double_def minus_double_def uminus_double_def times_double_def
  divide_double_def less_double_def less_eq_double_def lit_def strict_equal_def
  Math_sqrt_def Math_log_def

lemma rne_of_int [simp]: "rne (of_int n) = n"
  by (simp add: rne_def)

lemma rne_floor: "\<lfloor>m\<rfloor> \<le> rne m \<and> rne m \<le> \<lfloor>m\<rfloor> + 1"
  by (simp add: rne_def Let_def)

lemma rne_ge: "of_int n \<le> m \<Longrightarrow> n \<le> rne m"
proof -
  assume "of_int n \<le> m"
  then have "n \<le> \<lfloor>m\<rfloor>" by (simp add: le_floor_iff)
  then show ?thesis using rne_floor[of m] by linarith
qed

lemma rne_le_half: "m < of_int n + 1 / 2 \<Longrightarrow> rne m \<le> n"
proof -
  assume a: "m < of_int n + 1 / 2"
  then have "m < of_int (n + 1)" by simp
  then have "\<lfloor>m\<rfloor> < n + 1" by (simp only: floor_less_iff)
  then have f: "\<lfloor>m\<rfloor> \<le> n" by simp
  show ?thesis
  proof (cases "\<lfloor>m\<rfloor> = n")
    case True
    then have "m - of_int \<lfloor>m\<rfloor> < 1 / 2" using a by simp
    then show ?thesis using True by (simp add: rne_def Let_def)
  next
    case False
    then show ?thesis using f rne_floor[of m] by linarith
  qed
qed

lemma rne_le: "m \<le> of_int n \<Longrightarrow> rne m \<le> n"
  by (rule rne_le_half) simp

lemma rne_up_odd:
  assumes "of_int n + 1 / 2 \<le> m" and "m < of_int n + 1" and "odd n"
  shows "rne m = n + 1"
proof -
  have f: "\<lfloor>m\<rfloor> = n" using assms by (simp add: floor_eq_iff)
  show ?thesis using assms by (auto simp: rne_def Let_def f)
qed

lemma b64_zero [simp]: "b64 0 = 0"
  by (simp add: b64_def)

lemma b64_eq:
  assumes "2 powr (of_int e) \<le> \<bar>x\<bar>" and "\<bar>x\<bar> < 2 powr (of_int e + 1)"
  shows "b64 x = of_int (rne (x / 2 powr (of_int e - 52))) * 2 powr (of_int e - 52)"
proof -
  have pos: "0 < \<bar>x\<bar>" using assms(1) by (smt (verit) powr_gt_zero)
  then have "\<lfloor>log 2 \<bar>x\<bar>\<rfloor> = e"
    using assms by (simp add: floor_log_eq_powr_iff)
  then show ?thesis using pos by (simp add: b64_def)
qed

lemma expo_bounds:
  assumes "x \<noteq> 0"
  shows "2 powr (of_int \<lfloor>log 2 \<bar>x\<bar>\<rfloor>) \<le> \<bar>x\<bar> \<and> \<bar>x\<bar> < 2 powr (of_int \<lfloor>log 2 \<bar>x\<bar>\<rfloor> + 1)"
  using assms floor_log_eq_powr_iff[of "\<bar>x\<bar>" 2 "\<lfloor>log 2 \<bar>x\<bar>\<rfloor>"] by simp

lemma pow2_52: "(2::real) ^ 52 * 2 powr (r - 52) = 2 powr r"
proof -
  have "(2::real) powr 52 * 2 powr (r - 52) = 2 powr (52 + (r - 52))"
    by (rule powr_add[symmetric])
  then show ?thesis by simp
qed

lemma pow2_53: "(2::real) ^ 53 * 2 powr (r - 52) = 2 powr (r + 1)"
proof -
  have "(2::real) powr 53 * 2 powr (r - 52) = 2 powr (53 + (r - 52))"
    by (rule powr_add[symmetric])
  then show ?thesis by (simp add: add.commute)
qed

lemma of_int_pow2_le: "2 ^ n \<le> k \<Longrightarrow> (2::real) ^ n \<le> of_int k"
  by (metis of_int_le_iff of_int_numeral of_int_power)

lemma of_int_le_pow2: "k \<le> 2 ^ n \<Longrightarrow> of_int k \<le> (2::real) ^ n"
  by (metis of_int_le_iff of_int_numeral of_int_power)

lemma b64_ge_pow:
  assumes "2 powr (of_int j) \<le> x"
  shows "2 powr (of_int j) \<le> b64 x"
proof -
  have xp: "0 < x" using assms by (smt (verit) powr_gt_zero)
  define e where "e = \<lfloor>log 2 \<bar>x\<bar>\<rfloor>"
  have b: "2 powr (of_int e) \<le> x" "x < 2 powr (of_int e + 1)"
    using expo_bounds[of x] xp by (simp_all add: e_def)
  have "(2::real) powr (of_int j) < 2 powr (of_int e + 1)" using assms b by linarith
  then have "of_int j < (of_int e + 1 :: real)" by simp
  then have je: "j \<le> e" by linarith
  have eq: "b64 x = of_int (rne (x / 2 powr (of_int e - 52))) * 2 powr (of_int e - 52)"
    using b64_eq[of e x] b xp by simp
  have "(2::real) ^ 52 * 2 powr (of_int e - 52) \<le> x"
    using b(1) by (simp only: pow2_52)
  then have "(2::real) ^ 52 \<le> x / 2 powr (of_int e - 52)"
    by (simp add: pos_le_divide_eq)
  then have "of_int (2 ^ 52) \<le> x / 2 powr (of_int e - 52)" by simp
  then have "2 ^ 52 \<le> rne (x / 2 powr (of_int e - 52))" by (rule rne_ge)
  then have "(2::real) ^ 52 \<le> of_int (rne (x / 2 powr (of_int e - 52)))"
    by (rule of_int_pow2_le)
  then have "2 ^ 52 * 2 powr (of_int e - 52) \<le> b64 x"
    unfolding eq by (simp only: mult_right_mono powr_ge_zero)
  then have "2 powr (of_int e) \<le> b64 x" by (simp only: pow2_52)
  moreover have "(2::real) powr (of_int j) \<le> 2 powr (of_int e)" using je by simp
  ultimately show ?thesis by linarith
qed

lemma b64_le_pow:
  assumes "0 < x" and "x \<le> 2 powr (of_int j)"
  shows "b64 x \<le> 2 powr (of_int j)"
proof -
  define e where "e = \<lfloor>log 2 \<bar>x\<bar>\<rfloor>"
  have b: "2 powr (of_int e) \<le> x" "x < 2 powr (of_int e + 1)"
    using expo_bounds[of x] assms(1) by (simp_all add: e_def)
  have eq: "b64 x = of_int (rne (x / 2 powr (of_int e - 52))) * 2 powr (of_int e - 52)"
    using b64_eq[of e x] b assms(1) by simp
  have "2 powr (of_int e) \<le> (2::real) powr (of_int j)" using assms b by linarith
  then have ej: "e \<le> j" by simp
  show ?thesis
  proof (cases "e = j")
    case True
    then have "x = 2 powr (of_int e)" using assms b by simp
    then have "x = 2 ^ 52 * 2 powr (of_int e - 52)" by (simp only: pow2_52)
    then have "x / 2 powr (of_int e - 52) = 2 ^ 52" by simp
    then have "x / 2 powr (of_int e - 52) = of_int (2 ^ 52)" by simp
    then have "rne (x / 2 powr (of_int e - 52)) = 2 ^ 52" by (simp only: rne_of_int)
    then have "b64 x = 2 ^ 52 * 2 powr (of_int e - 52)" unfolding eq by simp
    then have "b64 x = 2 powr (of_int e)" by (simp only: pow2_52)
    then show ?thesis using True by simp
  next
    case False
    then have "e + 1 \<le> j" using ej by simp
    then have le: "(2::real) powr (of_int e + 1) \<le> 2 powr (of_int j)"
      by (metis of_int_1 of_int_add of_int_le_iff one_le_numeral powr_mono)
    have "x \<le> 2 ^ 53 * 2 powr (of_int e - 52)"
      using b(2) by (simp only: pow2_53)
    then have "x / 2 powr (of_int e - 52) \<le> 2 ^ 53"
      by (simp add: pos_divide_le_eq)
    then have "x / 2 powr (of_int e - 52) \<le> of_int (2 ^ 53)" by simp
    then have "rne (x / 2 powr (of_int e - 52)) \<le> 2 ^ 53" by (rule rne_le)
    then have "of_int (rne (x / 2 powr (of_int e - 52))) \<le> (2::real) ^ 53"
      by (rule of_int_le_pow2)
    then have "b64 x \<le> 2 ^ 53 * 2 powr (of_int e - 52)"
      unfolding eq by (simp only: mult_right_mono powr_ge_zero)
    then have "b64 x \<le> 2 powr (of_int e + 1)" by (simp only: pow2_53)
    then show ?thesis using le by linarith
  qed
qed

lemma b64_pos: "0 < x \<Longrightarrow> 0 < b64 x"
proof -
  assume xp: "0 < x"
  have "2 powr (of_int \<lfloor>log 2 \<bar>x\<bar>\<rfloor>) \<le> x" using expo_bounds[of x] xp by simp
  then have "2 powr (of_int \<lfloor>log 2 \<bar>x\<bar>\<rfloor>) \<le> b64 x" by (rule b64_ge_pow)
  then show ?thesis by (smt (verit) powr_gt_zero)
qed

lemma rne_uminus: "rne (- m) = - rne m"
proof (cases "m = of_int \<lfloor>m\<rfloor>")
  case True
  then obtain n where "m = of_int n" ..
  then have "- m = of_int (- n)" by simp
  then show ?thesis using \<open>m = of_int n\<close> by (metis rne_of_int)
next
  case False
  then have f: "\<lfloor>- m\<rfloor> = - \<lfloor>m\<rfloor> - 1"
    by (smt (verit) ceiling_def ceiling_altdef)
  have d: "0 < m - of_int \<lfloor>m\<rfloor>" "m - of_int \<lfloor>m\<rfloor> < 1"
    using False by linarith+
  show ?thesis
    using d by (auto simp: rne_def Let_def f)
qed

lemma b64_uminus: "b64 (- x) = - b64 x"
  by (simp add: b64_def rne_uminus)

lemma b64_neg: "x < 0 \<Longrightarrow> b64 x < 0"
  using b64_pos[of "- x"] by (simp add: b64_uminus)

lemma b64_pow2: "b64 (2 powr (of_int j)) = 2 powr (of_int j)"
  using b64_ge_pow[of j "2 powr (of_int j)"] b64_le_pow[of "2 powr (of_int j)" j] by simp

lemma b64_one [simp]: "b64 1 = 1"
  using b64_pow2[of 0] by simp

lemma b64_half [simp]: "b64 (1 / 2) = 1 / 2"
  using b64_pow2[of "- 1"] by (simp add: powr_minus inverse_eq_divide)

lemma b64_ge_half: "1 / 2 \<le> x \<Longrightarrow> 1 / 2 \<le> b64 x"
  using b64_ge_pow[of "- 1" x] by (simp add: powr_minus inverse_eq_divide)

lemma b64_le_half: "0 < x \<Longrightarrow> x \<le> 1 / 2 \<Longrightarrow> b64 x \<le> 1 / 2"
  using b64_le_pow[of x "- 1"] by (simp add: powr_minus inverse_eq_divide)

lemma b64_unit:
  assumes "1 / 2 \<le> x" and "x < 1"
  shows "b64 x = of_int (rne (x * 2 ^ 53)) / 2 ^ 53"
proof -
  have p: "(2::real) powr (of_int (- 1) - 52) = 1 / 2 ^ 53"
    by (simp add: powr_minus inverse_eq_divide)
  have "(2::real) powr (of_int (- 1)) \<le> \<bar>x\<bar>" "\<bar>x\<bar> < 2 powr (of_int (- 1) + 1)"
    using assms by (simp_all add: powr_minus inverse_eq_divide)
  then have "b64 x = of_int (rne (x / 2 powr (of_int (- 1) - 52))) * 2 powr (of_int (- 1) - 52)"
    by (rule b64_eq)
  then show ?thesis unfolding p by simp
qed

lemma b64_exact:
  assumes "0 < n" and "n < 2 ^ 53"
  shows "b64 (of_int n * 2 powr (of_int j)) = of_int n * 2 powr (of_int j)"
proof -
  define a where "a = \<lfloor>log 2 (of_int n)\<rfloor>"
  have n: "2 powr (of_int a) \<le> (of_int n :: real)" "(of_int n :: real) < 2 powr (of_int a + 1)"
    using floor_log_eq_powr_iff[of "of_int n" 2 a] assms(1) by (simp_all add: a_def)
  have "(of_int n :: real) < 2 ^ 53" using assms(2)
    by (metis of_int_less_iff of_int_numeral of_int_power)
  then have "(2::real) powr (of_int a) < 2 powr (of_int 53)" using n(1) by simp
  then have "(of_int a :: real) < of_int 53" by (subst (asm) powr_less_cancel_iff) simp_all
  then have a52: "a \<le> 52" by linarith
  define i where "i = nat (52 - a)"
  have i: "of_int a + real i = 52" using a52 by (simp add: i_def)
  define x :: real where "x = of_int n * 2 powr (of_int j)"
  have s: "(2::real) powr (of_int a) * 2 powr (of_int j) = 2 powr (of_int (a + j))"
    "(2::real) powr (of_int a + 1) * 2 powr (of_int j) = 2 powr (of_int (a + j) + 1)"
    by (simp_all add: powr_add[symmetric] algebra_simps)
  have "2 powr (of_int (a + j)) \<le> x"
    unfolding x_def s(1)[symmetric] using n(1) by (simp add: mult_right_mono)
  moreover have "x < 2 powr (of_int (a + j) + 1)"
    unfolding x_def s(2)[symmetric] using n(2) by (simp add: mult_strict_right_mono)
  moreover have "0 < x" unfolding x_def using assms(1) by simp
  ultimately have eq: "b64 x = of_int (rne (x / 2 powr (of_int (a + j) - 52))) * 2 powr (of_int (a + j) - 52)"
    using b64_eq[of "a + j" x] by simp
  have u: "(2::real) powr (of_int j) = 2 ^ i * 2 powr (of_int (a + j) - 52)"
  proof -
    have "(2::real) ^ i = 2 powr (real i)" by (simp add: powr_realpow)
    then have "(2::real) ^ i * 2 powr (of_int (a + j) - 52) = 2 powr (real i + (of_int (a + j) - 52))"
      by (simp add: powr_add)
    also have "real i + (of_int (a + j) - 52) = of_int j" using i by simp
    finally show ?thesis by simp
  qed
  have "x = of_int (n * 2 ^ i) * 2 powr (of_int (a + j) - 52)"
    unfolding x_def by (subst u) simp
  then have q: "x / 2 powr (of_int (a + j) - 52) = of_int (n * 2 ^ i)" by simp
  have "b64 x = of_int (n * 2 ^ i) * 2 powr (of_int (a + j) - 52)"
    unfolding eq q by (simp only: rne_of_int)
  also have "\<dots> = x" unfolding x_def by (subst u) simp
  finally show ?thesis unfolding x_def .
qed

lemma double_unit:
  assumes "b64 r = r" and "1 / 2 \<le> r" and "r < 1"
  shows "\<exists>n. r = of_int n / 2 ^ 53 \<and> 2 ^ 52 \<le> n \<and> n < 2 ^ 53"
proof -
  define n where "n = rne (r * 2 ^ 53)"
  have "b64 r = of_int n / 2 ^ 53" unfolding n_def by (rule b64_unit[OF assms(2,3)])
  then have r: "r = of_int n / 2 ^ 53" by (simp only: assms(1))
  have "1 / 2 \<le> of_int n / (2::real) ^ 53" "of_int n / (2::real) ^ 53 < 1"
    using assms(2,3) r by linarith+
  then have "(2::real) ^ 52 \<le> of_int n" "(of_int n :: real) < 2 ^ 53"
    by (simp_all add: field_simps)
  then have c: "(of_int (2 ^ 52) :: real) \<le> of_int n" "(of_int n :: real) < of_int (2 ^ 53)"
    by simp_all
  have "2 ^ 52 \<le> n" using c(1) by (rule iffD1[OF of_int_le_iff])
  moreover have "n < 2 ^ 53" using c(2) by (rule iffD1[OF of_int_less_iff])
  ultimately have "2 ^ 52 \<le> n" "n < 2 ^ 53" .
  with r show ?thesis by blast
qed

lemma sterbenz_unit:
  assumes "b64 r = r" and "1 / 2 \<le> r" and "r < 1"
  shows "b64 (1 - r) = 1 - r"
proof -
  obtain n where n: "r = of_int n / 2 ^ 53" "2 ^ 52 \<le> n" "n < 2 ^ 53"
    using double_unit[OF assms] by blast
  have p: "(2::real) powr (of_int (- 53)) = 1 / 2 ^ 53"
    by (simp add: powr_minus inverse_eq_divide)
  have e: "1 - r = of_int (2 ^ 53 - n) * 2 powr (of_int (- 53))"
    unfolding p n(1) by (simp add: field_simps)
  have "b64 (of_int (2 ^ 53 - n) * 2 powr (of_int (- 53))) = of_int (2 ^ 53 - n) * 2 powr (of_int (- 53))"
    using n by (intro b64_exact) simp_all
  then show ?thesis unfolding e .
qed

lemma b64_below_one:
  assumes "1 / 2 ^ 54 < r" and "r \<le> 1 / 2"
  shows "b64 (1 - r) < 1"
proof -
  have "(1 - r) * 2 ^ 53 < of_int (2 ^ 53 - 1) + 1 / 2"
    using assms(1) by (simp add: field_simps)
  then have "rne ((1 - r) * 2 ^ 53) \<le> 2 ^ 53 - 1" by (rule rne_le_half)
  then have "(of_int (rne ((1 - r) * 2 ^ 53)) :: real) \<le> of_int (2 ^ 53 - 1)"
    by (rule iffD2[OF of_int_le_iff])
  then have "(of_int (rne ((1 - r) * 2 ^ 53)) :: real) \<le> 2 ^ 53 - 1" by simp
  moreover have "b64 (1 - r) = of_int (rne ((1 - r) * 2 ^ 53)) / 2 ^ 53"
    using assms by (intro b64_unit) (simp_all add: field_simps)
  ultimately show ?thesis by (simp add: field_simps)
qed

lemma b64_absorbs:
  assumes "0 < r" and "r \<le> 1 / 2 ^ 54"
  shows "b64 (1 - r) = 1"
proof -
  have "of_int (2 ^ 53 - 1) + 1 / 2 \<le> (1 - r) * 2 ^ 53"
    "(1 - r) * 2 ^ 53 < of_int (2 ^ 53 - 1) + 1"
    using assms by (simp_all add: field_simps)
  moreover have "odd (2 ^ 53 - 1 :: int)" by simp
  ultimately have "rne ((1 - r) * 2 ^ 53) = 2 ^ 53 - 1 + 1" by (rule rne_up_odd)
  moreover have "b64 (1 - r) = of_int (rne ((1 - r) * 2 ^ 53)) / 2 ^ 53"
    using assms by (intro b64_unit) (simp_all add: field_simps)
  ultimately show ?thesis by simp
qed







section \<open>Look on doubles\<close>

lemma Look64_arg:
  assumes "\<not> (p \<le> lit 0 \<or> p \<ge> lit 1)" and "p < lit 0.5"
  shows "\<exists>r. p = Double (Fin r) \<and> 0 < r \<and> r < 1 / 2"
proof -
  obtain a where p: "p = Double a" by (cases p)
  show ?thesis using assms unfolding p
    by (cases a) (simp_all add: dops jsops)
qed

termination Look64
proof (relation "measure (\<lambda>p. if p < lit 0.5 then 1 else 0)")
  show "wf (measure (\<lambda>p. if p < lit 0.5 then 1 else (0::nat)))" by simp
next
  fix p :: double
  assume a: "\<not> (p \<le> lit 0 \<or> p \<ge> lit 1)" "\<not> strict_equal p (lit 0.5)" "p < lit 0.5"
  then obtain r where r: "p = Double (Fin r)" "0 < r" "r < 1 / 2"
    using Look64_arg by blast
  have "1 / 2 \<le> b64 (1 - r)" using r by (intro b64_ge_half) simp
  then have "\<not> (lit 1 - p < lit 0.5)" unfolding r(1) by (simp add: dops jsops)
  then show "(lit 1 - p, p) \<in> measure (\<lambda>p. if p < lit 0.5 then 1 else (0::nat))"
    using a(3) by simp
qed

lemma positiveE: "positive a \<Longrightarrow> \<exists>x. a = Double (Fin x) \<and> 0 < x"
  by (cases a; cases "number a") (simp_all add: positive_def)

lemma positive_Fin [simp]: "positive (Double (Fin x)) = (0 < x)"
  by (simp add: positive_def)

lemma finite64_Fin [simp]: "finite64 (Double (Fin x))"
  by (simp add: finite64_def)

lemma finite64E: "finite64 a \<Longrightarrow> \<exists>x. a = Double (Fin x)"
  by (cases a; cases "number a") (simp_all add: finite64_def)

lemma positive_lit: "0 < c \<Longrightarrow> positive (lit c)"
  by (simp add: lit_def b64_pos)

lemma positive_add: "positive a \<Longrightarrow> positive b \<Longrightarrow> positive (a + b)"
  by (auto dest!: positiveE simp: dops jsops b64_pos)

lemma positive_mult: "positive a \<Longrightarrow> positive b \<Longrightarrow> positive (a * b)"
  by (auto dest!: positiveE simp: dops jsops b64_pos)

lemma positive_sqrt: "positive a \<Longrightarrow> positive (Math_sqrt a)"
  by (auto dest!: positiveE simp: dops jsops b64_pos)

lemma finite64_divide: "positive a \<Longrightarrow> positive b \<Longrightarrow> finite64 (a / b)"
  by (auto dest!: positiveE simp: dops jsops)

lemma finite64_minus: "finite64 a \<Longrightarrow> finite64 b \<Longrightarrow> finite64 (a - b)"
  by (auto dest!: finite64E simp: dops jsops)

lemma positive_finite64: "positive a \<Longrightarrow> finite64 a"
  by (auto dest!: positiveE)

lemma Look64_outside: "p \<le> lit 0 \<or> p \<ge> lit 1 \<Longrightarrow> Look64 p = Double NaN"
  by (subst Look64.simps) simp

lemma Look64_half: "Look64 (lit 0.5) = lit 0"
  by (subst Look64.simps) (simp add: dops jsops)

lemma Look64_lower:
  assumes "0 < r" and "r < 1 / 2"
  shows "Look64 (Double (Fin r)) = - Look64 (Double (Fin (b64 (1 - r))))"
  using assms by (subst Look64.simps) (simp add: dops jsops)

lemma Look64_t:
  assumes "1 / 2 < r" and "r < 1"
  shows "positive (Math_sqrt (- lit 2.0 * Math_log (lit 1.0 - Double (Fin r))))"
proof -
  define q where "q = b64 (1 - r)"
  have q: "0 < q" "q \<le> 1 / 2"
    using assms b64_pos[of "1 - r"] b64_le_half[of "1 - r"] by (simp_all add: q_def)
  then have "ln q < 0" by simp
  then have l: "b64 (ln q) < 0" by (rule b64_neg)
  have "0 < b64 2" by (simp add: b64_pos)
  then have "0 < - b64 2 * b64 (ln q)" using l by (simp add: mult_pos_neg)
  then have "positive (- lit 2.0 * Math_log (Double (Fin q)))"
    using q(1) by (simp add: dops jsops b64_pos)
  moreover have "lit 1.0 - Double (Fin r) = Double (Fin q)"
    by (simp add: dops jsops q_def)
  ultimately show ?thesis by (simp only: positive_sqrt)
qed

lemma Look64_upper:
  assumes "1 / 2 < r" and "r < 1"
  shows "finite64 (Look64 (Double (Fin r)))"
proof -
  have c: "\<not> (Double (Fin r) \<le> lit 0 \<or> Double (Fin r) \<ge> lit 1)"
    "\<not> strict_equal (Double (Fin r)) (lit 0.5)" "\<not> Double (Fin r) < lit 0.5"
    using assms by (simp_all add: dops jsops)
  define t where "t = Math_sqrt (- lit 2.0 * Math_log (lit 1.0 - Double (Fin r)))"
  have t: "positive t" unfolding t_def using assms by (rule Look64_t)
  have "Look64 (Double (Fin r)) =
          t - (lit 2.515517 + lit 0.802853 * t + lit 0.010328 * t * t)
              / (lit 1 + lit 1.432788 * t + lit 0.189269 * t * t + lit 0.001308 * t * t * t)"
    by (subst Look64.simps) (simp only: c if_False Let_def t_def)
  moreover have "finite64 (t - (lit 2.515517 + lit 0.802853 * t + lit 0.010328 * t * t)
              / (lit 1 + lit 1.432788 * t + lit 0.189269 * t * t + lit 0.001308 * t * t * t))"
    using t by (intro finite64_minus finite64_divide positive_add positive_mult positive_lit
                positive_finite64) simp_all
  ultimately show ?thesis by simp
qed

lemma Look64_tiny:
  assumes "0 < s" and "s \<le> 1 / 2 ^ 54"
  shows "Look64 (Double (Fin s)) = Double NaN"
proof -
  have "s < 1 / 2" using assms by (simp add: field_simps)
  then have "Look64 (Double (Fin s)) = - Look64 (Double (Fin (b64 (1 - s))))"
    using assms(1) by (intro Look64_lower)
  moreover have "b64 (1 - s) = 1" using assms by (rule b64_absorbs)
  moreover have "Look64 (Double (Fin 1)) = Double NaN"
    by (rule Look64_outside) (simp add: dops jsops)
  ultimately show ?thesis by (simp add: dops jsops)
qed

lemma strict_equal_finite64: "finite64 a \<Longrightarrow> strict_equal a a"
  by (auto dest!: finite64E simp: dops jsops)

lemma finite64_uminus: "finite64 a \<Longrightarrow> finite64 (- a)"
  by (auto dest!: finite64E simp: dops jsops)

lemma uminus_uminus_finite64: "finite64 a \<Longrightarrow> - (- a) = a"
  by (auto dest!: finite64E simp: dops jsops)

lemma Look64_middle:
  assumes "1 / 2 \<le> q" and "q < 1"
  shows "finite64 (Look64 (Double (Fin q)))"
proof (cases "q = 1 / 2")
  case True
  have "Look64 (lit 0.5) = lit 0" by (rule Look64_half)
  then show ?thesis unfolding True by (simp add: lit_def)
next
  case False
  then show ?thesis using assms by (intro Look64_upper) simp_all
qed

lemma Look64_flip:
  assumes "b64 r = r" and "1 / 2 ^ 54 < r" and "r < 1"
  shows "strict_equal (Look64 (Double (Fin r))) (- Look64 (lit 1 - Double (Fin r)))"
proof (cases "r < 1 / 2")
  case True
  define q where "q = b64 (1 - r)"
  have r0: "0 < r" using assms(2) by (smt (verit) divide_pos_pos zero_less_power)
  have q: "1 / 2 \<le> q" "q < 1"
    unfolding q_def using True assms(2) b64_ge_half[of "1 - r"] b64_below_one[of r] by simp_all
  have a: "Look64 (Double (Fin r)) = - Look64 (Double (Fin q))"
    unfolding q_def using r0 True by (rule Look64_lower)
  have b: "lit 1 - Double (Fin r) = Double (Fin q)" by (simp add: dops jsops q_def)
  have "finite64 (- Look64 (Double (Fin q)))"
    using q by (intro finite64_uminus Look64_middle)
  then show ?thesis unfolding a b by (rule strict_equal_finite64)
next
  case False
  then have h: "1 / 2 \<le> r" by simp
  have e: "b64 (1 - r) = 1 - r" using assms(1) h assms(3) by (rule sterbenz_unit)
  have b: "lit 1 - Double (Fin r) = Double (Fin (1 - r))" by (simp add: dops jsops e)
  have f: "finite64 (Look64 (Double (Fin r)))" using h assms(3) by (rule Look64_middle)
  show ?thesis
  proof (cases "r = 1 / 2")
    case True
    have "Look64 (lit 0.5) = lit 0" by (rule Look64_half)
    then have "Look64 (Double (Fin (1 / 2))) = Double (Fin 0)" by (simp add: lit_def)
    then show ?thesis unfolding b unfolding True by (simp add: dops jsops)
  next
    case False
    then have "0 < 1 - r" "1 - r < 1 / 2" using h assms(3) by simp_all
    then have "Look64 (Double (Fin (1 - r))) = - Look64 (Double (Fin (b64 (1 - (1 - r)))))"
      by (rule Look64_lower)
    then have "Look64 (Double (Fin (1 - r))) = - Look64 (Double (Fin r))"
      by (simp add: assms(1))
    then have "- Look64 (lit 1 - Double (Fin r)) = Look64 (Double (Fin r))"
      unfolding b using f by (simp add: uminus_uminus_finite64)
    then show ?thesis using f by (simp add: strict_equal_finite64)
  qed
qed

lemma strict_equal_NaN: "\<not> strict_equal (Double NaN) b"
  by (simp add: dops jsops)

text \<open>
  Claim C4, as the code has it. \<^verbatim>\<open>Look\<close> returns \<^verbatim>\<open>NaN\<close> for every \<open>p \<le> 0\<close> and every
  \<open>p \<ge> 1\<close>, and returns 0 at \<open>p = 0.5\<close>. For every double \<open>p\<close> with \<open>2\<^sup>-\<^sup>5\<^sup>4 < p < 1\<close> the
  comparison \<^verbatim>\<open>Look(p) === -Look(1 - p)\<close> is true. For \<open>0 < p \<le> 2\<^sup>-\<^sup>5\<^sup>4\<close> the difference
  \<^verbatim>\<open>1 - p\<close> rounds to 1, so \<^verbatim>\<open>Look(p)\<close> is \<^verbatim>\<open>NaN\<close> and the comparison is false.
\<close>

theorem Look64_antisymmetry:
  "(p \<le> lit 0 \<or> p \<ge> lit 1 \<longrightarrow> Look64 p = Double NaN)
   \<and> Look64 (lit 0.5) = Double (Fin 0)
   \<and> (b64 r = r \<and> 1 / 2 ^ 54 < r \<and> r < 1 \<longrightarrow>
        strict_equal (Look64 (Double (Fin r))) (- Look64 (lit 1 - Double (Fin r))))
   \<and> (0 < s \<and> s \<le> 1 / 2 ^ 54 \<longrightarrow>
        Look64 (Double (Fin s)) = Double NaN
        \<and> \<not> strict_equal (Look64 (Double (Fin s))) (- Look64 (lit 1 - Double (Fin s))))"
proof (intro conjI impI)
  assume "p \<le> lit 0 \<or> p \<ge> lit 1"
  then show "Look64 p = Double NaN" by (rule Look64_outside)
next
  have "Look64 (lit 0.5) = lit 0" by (rule Look64_half)
  then show "Look64 (lit 0.5) = Double (Fin 0)" by (simp add: lit_def)
next
  assume "b64 r = r \<and> 1 / 2 ^ 54 < r \<and> r < 1"
  then show "strict_equal (Look64 (Double (Fin r))) (- Look64 (lit 1 - Double (Fin r)))"
    using Look64_flip by blast
next
  assume s: "0 < s \<and> s \<le> 1 / 2 ^ 54"
  then show n: "Look64 (Double (Fin s)) = Double NaN" using Look64_tiny by blast
  show "\<not> strict_equal (Look64 (Double (Fin s))) (- Look64 (lit 1 - Double (Fin s)))"
    unfolding n by (rule strict_equal_NaN)
qed

theorem Look64_antisymmetry_witness:
  "Look64 (Double (Fin (- 1))) = Double NaN
   \<and> Look64 (Double (Fin 2)) = Double NaN
   \<and> Look64 (lit 0.5) = Double (Fin 0)
   \<and> strict_equal (Look64 (Double (Fin (1 / 4)))) (- Look64 (lit 1 - Double (Fin (1 / 4))))
   \<and> strict_equal (Look64 (Double (Fin (3 / 4)))) (- Look64 (lit 1 - Double (Fin (3 / 4))))
   \<and> Look64 (Double (Fin (1 / 2 ^ 60))) = Double NaN"
proof -
  have "b64 (1 / 4) = 1 / 4"
    using b64_pow2[of "- 2"] by (simp add: powr_minus inverse_eq_divide)
  then have a: "b64 (1 / 4) = 1 / 4 \<and> 1 / 2 ^ 54 < (1 / 4 :: real) \<and> (1 / 4 :: real) < 1"
    by simp
  have "b64 (3 / 4) = 3 / 4"
    using b64_exact[of 3 "- 2"] by (simp add: powr_minus inverse_eq_divide)
  then have b: "b64 (3 / 4) = 3 / 4 \<and> 1 / 2 ^ 54 < (3 / 4 :: real) \<and> (3 / 4 :: real) < 1"
    by simp
  have c: "0 < (1 / 2 ^ 60 :: real) \<and> (1 / 2 ^ 60 :: real) \<le> 1 / 2 ^ 54" by simp
  have d: "Double (Fin (- 1)) \<le> lit 0 \<or> Double (Fin (- 1)) \<ge> lit 1"
    "Double (Fin 2) \<le> lit 0 \<or> Double (Fin 2) \<ge> lit 1"
    by (simp_all add: dops jsops)
  show ?thesis
    using Look64_antisymmetry[of "Double (Fin (- 1))" "1 / 4" "1 / 2 ^ 60"]
      Look64_antisymmetry[of "Double (Fin 2)" "3 / 4" "1 / 2 ^ 60"] a b c d
    by blast
qed

text \<open>
  The antisymmetry of claim C4 fails at \<open>p = 2\<^sup>-\<^sup>6\<^sup>0\<close>, a double strictly between 0 and 1.
\<close>

theorem Look64_antisymmetry_counterexample:
  "b64 (1 / 2 ^ 60) = 1 / 2 ^ 60
   \<and> lit 0 < Double (Fin (1 / 2 ^ 60)) \<and> Double (Fin (1 / 2 ^ 60)) < lit 1
   \<and> \<not> strict_equal (Look64 (Double (Fin (1 / 2 ^ 60))))
                      (- Look64 (lit 1 - Double (Fin (1 / 2 ^ 60))))"
proof -
  have "b64 (1 / 2 ^ 60) = 1 / 2 ^ 60"
    using b64_pow2[of "- 60"] by (simp add: powr_minus inverse_eq_divide)
  moreover have "Look64 (Double (Fin (1 / 2 ^ 60))) = Double NaN"
    by (rule Look64_tiny) simp_all
  ultimately show ?thesis by (simp add: dops jsops)
qed

section \<open>The three copies of the Wilson-Hilferty factor\<close>

text \<open>
  Over exact arithmetic the three expressions are one polynomial in \<open>z\<close> and the skew: the
  first copy divides by 3 where the other two multiply by \<open>1 / 3\<close>.
\<close>

lemma pearson3_exact_arithmetic:
  "Kt (calculatePearsonType3 mean std skew z tau) = KSTest_getPearson3Kt z skew
   \<and> ChiSquareTest_getPearson3Kt z skew = KSTest_getPearson3Kt z skew
   \<and> Kt (calculatePearsonType3 mean std skew NaN tau) = NaN
   \<and> KSTest_getPearson3Kt NaN skew = NaN
   \<and> ChiSquareTest_getPearson3Kt NaN skew = NaN"
proof (intro conjI)
  show "Kt (calculatePearsonType3 mean std skew z tau) = KSTest_getPearson3Kt z skew"
    by (cases z; cases skew)
       (simp_all add: calculatePearsonType3_def KSTest_getPearson3Kt_def jsops Let_def)
  show "ChiSquareTest_getPearson3Kt z skew = KSTest_getPearson3Kt z skew"
    by (cases z; cases skew)
       (simp_all add: ChiSquareTest_getPearson3Kt_def KSTest_getPearson3Kt_def jsops Let_def)
  show "Kt (calculatePearsonType3 mean std skew NaN tau) = NaN"
    by (simp add: calculatePearsonType3_def jsops Let_def)
  show "KSTest_getPearson3Kt NaN skew = NaN"
    by (simp add: KSTest_getPearson3Kt_def)
  show "ChiSquareTest_getPearson3Kt NaN skew = NaN"
    by (simp add: ChiSquareTest_getPearson3Kt_def jsops Let_def)
qed

lemma rnd_NaN_iff [simp]: "rnd a = NaN \<longleftrightarrow> a = NaN"
  by (cases a) simp_all

















section \<open>The frequency estimate\<close>

lemma Extreme_one: "Extreme (Fin 1) = NInf"
  by (simp add: Extreme_def jsops Let_def)

text \<open>
  Claim C10. At the return period \<open>T = 1\<close> the estimate returns without an exception for
  each of the five distributions: \<^verbatim>\<open>Kt\<close> and \<^verbatim>\<open>Qest\<close> are \<^verbatim>\<open>NaN\<close> for Normal, LogNormal,
  PearsonIII and LogPearsonIII, and \<^verbatim>\<open>Kt\<close> is \<^verbatim>\<open>-Infinity\<close> for ExtremeValueI, whatever
  the sample.
\<close>

theorem freq_T_one:
  "freq Normal y (Fin 1) = Inr \<lparr>Kt = NaN, Qest = NaN\<rparr>
   \<and> freq LogNormal y (Fin 1) = Inr \<lparr>Kt = NaN, Qest = NaN\<rparr>
   \<and> freq PearsonType3 y (Fin 1) = Inr \<lparr>Kt = NaN, Qest = NaN\<rparr>
   \<and> freq LogPearsonType3 y (Fin 1) = Inr \<lparr>Kt = NaN, Qest = NaN\<rparr>
   \<and> (\<exists>q. freq ExtremeValueType1 y (Fin 1) = Inr \<lparr>Kt = NInf, Qest = q\<rparr>)"
proof -
  have z: "Look (Fin 0) = NaN"
    by (rule Look_outside) (simp add: jsops)
  show ?thesis
    by (simp add: freq_def Let_def z Extreme_one calculateNormal_def calculateLogNormal_def
        calculatePearsonType3_def calculateLogPearsonType3_def calculateExtremeValueType1_def
        plus_jsnum_def minus_jsnum_def times_jsnum_def divide_jsnum_def jsub_def)
qed

section \<open>The confidence index\<close>

text \<open>
  Claim C6. A confidence index below 0 or above 4 makes the constructor of \<^verbatim>\<open>KSTest\<close>
  throw, while \<^verbatim>\<open>chi2Test\<close> with the same index throws nothing and returns an object
  with the failure message and \<^verbatim>\<open>fitted = false\<close>, for every distribution code and sample.
\<close>

theorem confidence_index_asymmetry:
  "(idx < 0 \<or> 4 < idx \<longrightarrow> KSTest_new idx = Inl InvalidConfidenceLevelIndex)
   \<and> (idx < 0 \<or> 4 < idx \<longrightarrow>
        chi2Test distType data idx
        = Inr (Chi2Invalid idx ''Confidence index is invalid! Must be between [0, 4]'' False))
   \<and> (idx < 0 \<or> 4 < idx \<longrightarrow>
        (\<exists>r. chi2Test distType data idx = Inr r \<and> \<not> return_fitted r))"
  by (auto simp: KSTest_new_def KSalpha_def chi2Test_def ConfidenceLevelString_def)

theorem confidence_index_asymmetry_witness:
  "KSTest_new 5 = Inl InvalidConfidenceLevelIndex
   \<and> chi2Test Normal [] 5
     = Inr (Chi2Invalid 5 ''Confidence index is invalid! Must be between [0, 4]'' False)"
  using confidence_index_asymmetry[of 5 Normal "[]"] by simp

section \<open>Sorting\<close>

lemma length_insert_by [simp]: "length (insert_by cmp x ys) = Suc (length ys)"
  by (induction ys) simp_all

lemma length_sort_by [simp]: "length (sort_by cmp xs) = length xs"
  by (induction xs) (simp_all add: sort_by_def)

lemma length_sort_arr [simp]: "length (sort_arr xs) = length xs"
  by (simp add: sort_arr_def)

lemma length_sortDescending [simp]: "length (sortDescending xs) = length xs"
  by (simp add: sortDescending_def)



section \<open>Statistics of a finite sample\<close>

lemma foldl_sum_Fin:
  "foldl (\<lambda>acc val. acc + val) (Fin a) (map Fin xs) = Fin (a + sum_list xs)"
  by (induction xs arbitrary: a) (simp_all add: jsops)

lemma foldl_sq_Fin:
  "foldl (\<lambda>acc val. acc + jpow (val - Fin m) (Fin 2)) (Fin a) (map Fin xs)
   = Fin (a + (\<Sum>x\<leftarrow>xs. (x - m)\<^sup>2))"
proof (induction xs arbitrary: a)
  case Nil
  show ?case by simp
next
  case (Cons x xs)
  have "Fin a + jpow (Fin x - Fin m) (Fin 2) = Fin (a + (x - m)\<^sup>2)"
    using jpow_square[of "x - m"] by (simp add: jsops)
  then show ?case using Cons.IH[of "a + (x - m)\<^sup>2"] by (simp add: add.assoc)
qed

lemma sumSqDiff_Fin: "sumSqDiff (Fin m) (map Fin xs) = Fin (\<Sum>x\<leftarrow>xs. (x - m)\<^sup>2)"
  using foldl_sq_Fin[of m 0 xs] by (simp add: sumSqDiff_def)

lemma statistics_M:
  "M (statistics (map Fin xs)) = Fin (sample_mean xs)"
  by (cases "xs = []")
     (simp_all add: statistics_def Let_def sample_mean_def foldl_sum_Fin divide_jsnum_def)

lemma statistics_SD:
  "SD (statistics (map Fin xs)) = Fin (sample_sd xs)"
proof (cases "length xs \<le> 1")
  case True
  then show ?thesis
    by (cases "xs = []") (simp_all add: statistics_def Let_def sample_sd_def)
next
  case False
  then have n: "1 < length xs" "xs \<noteq> []" by auto
  define m where "m = sample_mean xs"
  have mean: "foldl (\<lambda>acc val. acc + val) (Fin 0) (map Fin xs) / Fin (real (length xs)) = Fin m"
    using n by (simp add: m_def sample_mean_def foldl_sum_Fin divide_jsnum_def)
  have "0 \<le> (\<Sum>x\<leftarrow>xs. (x - m)\<^sup>2)"
    by (rule sum_list_nonneg) auto
  moreover have "0 \<le> real (length xs) - 1" using n by simp
  ultimately have nonneg: "\<not> (\<Sum>x\<leftarrow>xs. (x - m)\<^sup>2) / (real (length xs) - 1) < 0"
    by (simp add: not_less)
  have "SD (statistics (map Fin xs))
        = jsqrt (sumSqDiff (Fin m) (map Fin xs) / Fin (real (length xs) - 1))"
    using n by (simp add: statistics_def Let_def mean)
  also have "\<dots> = Fin (sqrt ((\<Sum>x\<leftarrow>xs. (x - m)\<^sup>2) / (real (length xs) - 1)))"
    using n nonneg by (simp add: sumSqDiff_Fin divide_jsnum_def)
  finally show ?thesis using n by (simp add: sample_sd_def m_def)
qed

text \<open>
  Claim C5. For every sample and every return period \<open>T\<close>, the estimate for the Normal
  distribution returns \<^verbatim>\<open>Kt = Look(1 - 1/T)\<close> and \<^verbatim>\<open>Qest = mean + Kt * std\<close>, where \<open>mean\<close>
  and \<open>std\<close> are what \<^verbatim>\<open>statistics\<close> computes on the sample as given (no logarithm taken);
  on a sample of finite numbers these are the sample mean and the standard deviation
  with denominator \<open>n - 1\<close>.
\<close>

theorem freq_Normal:
  "freq Normal y T
   = Inr \<lparr>Kt = Look (Fin 1 - Fin 1 / T),
          Qest = M (statistics y) + Look (Fin 1 - Fin 1 / T) * SD (statistics y)\<rparr>
   \<and> M (statistics (map Fin xs)) = Fin (sample_mean xs)
   \<and> SD (statistics (map Fin xs)) = Fin (sample_sd xs)"
  by (simp add: freq_def calculateNormal_def Let_def statistics_M statistics_SD)

section \<open>The chi-square loops\<close>

lemma foldl_keeps:
  assumes "\<And>r x. f (g r x) = f r"
  shows "f (foldl g r xs) = f r"
  by (induction xs arbitrary: r) (simp_all add: assms)

lemma e'_count_value [simp]: "e' (count_value i r v) = e' r"
  by (simp add: count_value_def)

lemma e'_countFrequencies [simp]: "e' (countFrequencies data r k) = e' r"
  unfolding countFrequencies_def
  by (rule foldl_keeps) (rule foldl_keeps, simp)

lemma e'_bins_step [simp]: "e' (bins_step d mean std skew k r i) = e' r"
  by (simp add: bins_step_def Let_def)

lemma e'_divideIntoBins: "e' (divideIntoBins data k d) = replicate (Suc k) (Fin 0)"
proof -
  have "e' (foldl (bins_step d mean std skew k) r is) = e' r" for mean std skew r "is"
    by (rule foldl_keeps) simp
  then show ?thesis
    by (simp add: divideIntoBins_def Let_def createChi2Results_def)
qed

lemma chi2_loop_e':
  "length (e' (fst (foldl (chi2_step n k) acc [1..<Suc m]))) = length (e' (fst acc))
   \<and> (\<forall>i. 1 \<le> i \<and> i \<le> m \<and> i < length (e' (fst acc)) \<longrightarrow>
         e' (fst (foldl (chi2_step n k) acc [1..<Suc m])) ! i = Fin (real n) / Fin (real k))"
proof (induction m)
  case 0
  show ?case by simp
next
  case (Suc m)
  define acc' where "acc' = foldl (chi2_step n k) acc [1..<Suc m]"
  have step: "foldl (chi2_step n k) acc [1..<Suc (Suc m)] = chi2_step n k acc' (Suc m)"
    by (simp add: acc'_def)
  have e: "e' (fst (chi2_step n k acc' (Suc m)))
           = (e' (fst acc'))[Suc m := Fin (real n) / Fin (real k)]"
    by (simp add: chi2_step_def Let_def)
  show ?case
    unfolding step e using Suc.IH
    by (auto simp: acc'_def nth_list_update le_Suc_eq)
qed

lemma e'_calculateChiSquare:
  assumes "1 \<le> i" and "i \<le> k"
  shows "e' (calculateChiSquare data k ci d) ! i = Fin (real (length data)) / Fin (real k)"
proof -
  have "e' (calculateChiSquare data k ci d)
        = e' (fst (foldl (chi2_step (length data) k) (divideIntoBins data k d, Fin 0) [1..<Suc k]))"
    by (simp add: calculateChiSquare_def Let_def)
  then show ?thesis
    using chi2_loop_e'[of "length data" k "(divideIntoBins data k d, Fin 0)" k] assms
    by (simp add: e'_divideIntoBins)
qed

lemma length_e'_calculateChiSquare: "length (e' (calculateChiSquare data k ci d)) = Suc k"
proof -
  have "e' (calculateChiSquare data k ci d)
        = e' (fst (foldl (chi2_step (length data) k) (divideIntoBins data k d, Fin 0) [1..<Suc k]))"
    by (simp add: calculateChiSquare_def Let_def)
  then show ?thesis
    using chi2_loop_e'[of "length data" k "(divideIntoBins data k d, Fin 0)" k]
    by (simp add: e'_divideIntoBins)
qed

section \<open>chi2Test\<close>

lemma log10_nonneg: "1 \<le> n \<Longrightarrow> 0 \<le> log 10 (real n)"
proof -
  assume "1 \<le> n"
  then have "1 \<le> real n" by simp
  then have "0 \<le> ln (real n)" by (rule ln_ge_zero)
  then show ?thesis by (simp add: log_def)
qed

lemma chi2Test_valid:
  assumes "0 \<le> idx" and "idx < 5" and "data \<noteq> []"
  shows "chi2Test d data idx
         = Inr (Chi2Results
                  (calculateChiSquare (sort_arr data) (sturges (length data)) (nat idx) d))"
proof -
  define z where "z = \<lfloor>3.3 * log 10 (real (length data)) + 1 / 2\<rfloor>"
  have n: "1 \<le> length data" using assms(3) by (cases data) simp_all
  then have "0 \<le> log 10 (real (length data))" by (rule log10_nonneg)
  then have "0 \<le> 3.3 * log 10 (real (length data)) + 1 / 2" by simp
  then have z0: "0 \<le> z" by (simp add: z_def)
  have ic: "Fin 1 + jround (Fin 3.3 * jlog10 (Fin (real (length data)))) + Fin 1
            = Fin (of_int (2 + z))"
    using assms(3) by (simp add: jsops z_def)
  have al: "array_length (Fin (of_int (2 + z))) = Some (nat (2 + z))"
    using z0 by (simp add: is_integer_def)
  have k: "nat (2 + z) - Suc 0 = sturges (length data)"
    using z0 by (simp add: sturges_def z_def)
  show ?thesis
    unfolding chi2Test_def Let_def ic al
    using assms(1,2) by (simp add: ConfidenceLevelString_def k)
qed

lemma chi2Test_empty:
  assumes "0 \<le> idx" and "idx < 5"
  shows "chi2Test d [] idx = Inl RangeError"
  using assms by (simp add: chi2Test_def ConfidenceLevelString_def Let_def jsops)


text \<open>
  Claim C7. In the results computed with \<open>k\<close> bins over a sample of size \<open>n\<close>, the
  expected count of every bin \<open>i\<close> from 1 to \<open>k\<close> is \<open>n / k\<close>: in \<^verbatim>\<open>_calculateChiSquare\<close> for any
  bin count, and in every full result of \<^verbatim>\<open>chi2Test\<close>, whose bin count is the length of
  the array less the unused index 0.
\<close>

theorem expected_count_uniform:
  "(1 \<le> i \<and> i \<le> k \<longrightarrow>
      e' (calculateChiSquare data k ci d) ! i = Fin (real (length data)) / Fin (real k)
      \<and> Fin (real (length data)) / Fin (real k) = Fin (real (length data) / real k))
   \<and> (chi2Test d data idx = Inr (Chi2Results r) \<and> 1 \<le> i \<and> i < length (e' r) \<longrightarrow>
        e' r ! i = Fin (real (length data) / real (length (e' r) - 1)))"
proof (intro conjI impI)
  assume a: "1 \<le> i \<and> i \<le> k"
  then show "e' (calculateChiSquare data k ci d) ! i = Fin (real (length data)) / Fin (real k)"
    by (simp add: e'_calculateChiSquare)
  show "Fin (real (length data)) / Fin (real k) = Fin (real (length data) / real k)"
    using a by (simp add: divide_jsnum_def)
next
  assume a: "chi2Test d data idx = Inr (Chi2Results r) \<and> 1 \<le> i \<and> i < length (e' r)"
  then have idx: "0 \<le> idx" "idx < 5"
    by (auto simp: chi2Test_def ConfidenceLevelString_def split: if_splits)
  with a have ne: "data \<noteq> []" using chi2Test_empty[of idx d] by auto
  define k where "k = sturges (length data)"
  have r: "r = calculateChiSquare (sort_arr data) k (nat idx) d"
    using a chi2Test_valid[OF idx ne, of d] by (simp add: k_def)
  have len: "length (e' r) = Suc k" by (simp add: r length_e'_calculateChiSquare)
  have "e' r ! i = Fin (real (length data)) / Fin (real k)"
    using a len by (simp add: r e'_calculateChiSquare)
  moreover have "k \<noteq> 0" using a len by auto
  ultimately show "e' r ! i = Fin (real (length data) / real (length (e' r) - 1))"
    by (simp add: len divide_jsnum_def)
qed

theorem expected_count_uniform_witness:
  "e' (calculateChiSquare [Fin 1, Fin 3] 2 0 Normal) ! 1 = Fin 1
   \<and> (\<exists>r. chi2Test Normal [Fin 5] 2 = Inr (Chi2Results r) \<and> e' r ! 1 = Fin 1)"
proof -
  define r0 where "r0 = calculateChiSquare (sort_arr [Fin 5]) (sturges (length [Fin 5])) (nat 2) Normal"
  have run: "chi2Test Normal [Fin 5] 2 = Inr (Chi2Results r0)"
    unfolding r0_def by (rule chi2Test_valid) simp_all
  have len: "length (e' r0) = 2"
    by (simp add: r0_def length_e'_calculateChiSquare sturges_def)
  have "e' (calculateChiSquare [Fin 1, Fin 3] 2 0 Normal) ! 1 = Fin 1"
    using expected_count_uniform[of 1 2 "[Fin 1, Fin 3]" 0 Normal] by (simp add: jsops)
  moreover have "e' r0 ! 1 = Fin 1"
    using expected_count_uniform[of 1 k "[Fin 5]" ci Normal 2 r0] run len by simp
  ultimately show ?thesis using run by blast
qed






section \<open>The counting loops\<close>



section \<open>The edges of the bins\<close>





section \<open>The total of the observed counts\<close>










lemma Look_one_half: "Look (Fin (1 / 2)) = Fin 0"
  using Look_half by simp
















section \<open>The loop of runTest\<close>

lemma ks_step_Inr:
  assumes "ks_step d N ca mean std skew sortedData i r = Inr r'"
  shows "\<exists>px zEst zLow zHigh. r' = ks_mark px zEst zLow zHigh (sortedData ! (i - 1)) r"
proof (cases "ks_bounds d mean std skew (plottingPosition 3 (Fin (real i)) (Fin (real N)))
                ((Fin (real i) - Fin 1) / Fin (real N) + ca) (Fin (real i) / Fin (real N) - ca)")
  case (Inl err)
  then show ?thesis using assms by (simp add: ks_step_def Let_def)
next
  case (Inr z)
  obtain a b c where z: "z = (a, b, c)" by (cases z)
  have "ks_step d N ca mean std skew sortedData i r
        = Inr (ks_mark (plottingPosition 3 (Fin (real i)) (Fin (real N)))
                 (if d = LogNormal \<or> d = LogPearsonType3 then jpow (Fin 10) a else a)
                 (if (d = LogNormal \<or> d = LogPearsonType3) \<and> \<not> isNaN b then jpow (Fin 10) b else b)
                 (if (d = LogNormal \<or> d = LogPearsonType3) \<and> \<not> isNaN c then jpow (Fin 10) c else c)
                 (sortedData ! (i - 1)) r)"
    unfolding ks_step_def Let_def Inr z by (simp only: sum.case prod.case)
  then show ?thesis using assms by (metis sum.inject(2))
qed

lemma ks_mark_fields:
  "obs (ks_mark px zEst zLow zHigh v r) = obs r"
  "est (ks_mark px zEst zLow zHigh v r) = est r @ [zEst]"
  "lowerBound (ks_mark px zEst zLow zHigh v r) = lowerBound r @ [zLow]"
  "upperBound (ks_mark px zEst zLow zHigh v r) = upperBound r @ [zHigh]"
  "prob (ks_mark px zEst zLow zHigh v r) = prob r @ [px]"
  "mark (ks_mark px zEst zLow zHigh v r)
   = mark r @ [if \<not> isNaN zHigh \<and> v > zHigh then CHR ''+''
               else if \<not> isNaN zLow \<and> v < zLow then CHR ''-'' else CHR ''G'']"
  "ks_results.fitted (ks_mark px zEst zLow zHigh v r)
   = (\<not> (\<not> isNaN zLow \<and> v < zLow) \<and> \<not> (\<not> isNaN zHigh \<and> v > zHigh) \<and> ks_results.fitted r)"
  by (simp_all add: ks_mark_def Let_def)

lemma ks_step_inv:
  assumes "ks_step d N ca mean std skew sortedData (Suc n) r = Inr r'"
    and "ks_inv sortedData n r"
  shows "ks_inv sortedData (Suc n) r'"
proof -
  obtain px zEst zLow zHigh where r': "r' = ks_mark px zEst zLow zHigh (sortedData ! n) r"
    using ks_step_Inr[OF assms(1)] by auto
  note f = ks_mark_fields[of px zEst zLow zHigh "sortedData ! n" r, folded r']
  have inv: "obs r = sortedData" "length (est r) = n" "length (lowerBound r) = n"
    "length (upperBound r) = n" "length (mark r) = n" "length (prob r) = n"
    "ks_results.fitted r = (\<not> (\<exists>i<n. below_lower r i \<or> above_upper r i))"
    "\<forall>i<n. mark r ! i = mark_of r i"
    using assms(2) by (simp_all add: ks_inv_def)
  have old: "below_lower r' i = below_lower r i" "above_upper r' i = above_upper r i"
    if "i < n" for i
    using that inv by (simp_all add: f below_lower_def above_upper_def nth_append)
  have new: "below_lower r' n = (\<not> isNaN zLow \<and> sortedData ! n < zLow)"
    "above_upper r' n = (\<not> isNaN zHigh \<and> sortedData ! n > zHigh)"
    using inv by (simp_all add: f below_lower_def above_upper_def nth_append)
  have ex: "(\<exists>i<Suc n. below_lower r' i \<or> above_upper r' i)
            = ((\<exists>i<n. below_lower r i \<or> above_upper r i) \<or> below_lower r' n \<or> above_upper r' n)"
    using old by (auto simp: less_Suc_eq)
  have fit: "ks_results.fitted r' = (\<not> (\<exists>i<Suc n. below_lower r' i \<or> above_upper r' i))"
    unfolding ex new f(7) inv(7) by blast
  have marks: "mark r' ! i = mark_of r' i" if "i < Suc n" for i
  proof (cases "i < n")
    case True
    then have "mark r' ! i = mark r ! i" using inv by (simp add: f nth_append)
    moreover have "mark_of r' i = mark_of r i" using old[OF True] by (simp add: mark_of_def)
    ultimately show ?thesis using inv(8) True by simp
  next
    case False
    then have i: "i = n" using that by simp
    have "mark r' ! n = (if \<not> isNaN zHigh \<and> sortedData ! n > zHigh then CHR ''+''
                         else if \<not> isNaN zLow \<and> sortedData ! n < zLow then CHR ''-''
                         else CHR ''G'')"
      using inv(5) by (simp add: f(6) nth_append)
    then show ?thesis unfolding i mark_of_def new by simp
  qed
  show ?thesis
    unfolding ks_inv_def using fit marks inv by (simp add: f)
qed

lemma ks_loop_inv:
  assumes "ks_loop d N ca mean std skew sortedData [Suc n..<Suc m] r = Inr r'"
    and "ks_inv sortedData n r" and "n \<le> m"
  shows "ks_inv sortedData m r'"
  using assms
proof (induction "m - n" arbitrary: n r)
  case 0
  then show ?case by simp
next
  case (Suc k)
  then have lt: "n < m" by simp
  then have split: "[Suc n..<Suc m] = Suc n # [Suc (Suc n)..<Suc m]"
    by (simp add: upt_conv_Cons)
  obtain r1 where r1: "ks_step d N ca mean std skew sortedData (Suc n) r = Inr r1"
    "ks_loop d N ca mean std skew sortedData [Suc (Suc n)..<Suc m] r1 = Inr r'"
    using Suc.prems(1) unfolding split by (auto split: sum.splits)
  have "ks_inv sortedData (Suc n) r1" using ks_step_inv[OF r1(1) Suc.prems(2)] .
  moreover have "k = m - Suc n" using Suc.hyps(2) by simp
  ultimately show ?case using Suc.hyps(1)[of "Suc n" r1] r1(2) lt by simp
qed

lemma ks_step_keeps_unfitted:
  assumes "ks_step d N ca mean std skew sortedData i r = Inr r'" and "\<not> ks_results.fitted r"
  shows "\<not> ks_results.fitted r'"
  using ks_step_Inr[OF assms(1)] assms(2) by (auto simp: ks_mark_fields)

text \<open>
  Claim C3. In every result of \<^verbatim>\<open>runTest\<close>, \<^verbatim>\<open>fitted\<close> is false exactly when some observation
  lies strictly below its lower bound or strictly above its upper bound, a bound that is
  \<^verbatim>\<open>NaN\<close> counting for neither; the mark of a rank is \<open>+\<close> above the upper bound, \<open>-\<close> below
  the lower bound (and not above the upper one) and \<open>G\<close> otherwise; and a round of the loop
  that starts with \<^verbatim>\<open>fitted\<close> false ends with it false.
\<close>

theorem ks_fitted_iff:
  "(runTest this d data = Inr r \<longrightarrow>
      length (obs r) = length data \<and> length (lowerBound r) = length data
      \<and> length (upperBound r) = length data \<and> length (mark r) = length data
      \<and> (\<not> ks_results.fitted r) = (\<exists>i<length data. below_lower r i \<or> above_upper r i)
      \<and> (\<forall>i<length data. mark r ! i = mark_of r i))
   \<and> (ks_step d N ca mean std skew sortedData i s = Inr s' \<and> \<not> ks_results.fitted s \<longrightarrow>
        \<not> ks_results.fitted s')"
proof (intro conjI impI)
  assume run: "runTest this d data = Inr r"
  then have ne: "length data \<noteq> 0" by (auto simp: runTest_def Let_def split: if_splits)
  define tr where "tr = (if d = LogNormal \<or> d = LogPearsonType3
                          then map log10_clamped (sortDescending data) else sortDescending data)"
  define r0 where "r0 = \<lparr>obs = sortDescending data, est = [], lowerBound = [], upperBound = [],
                          mark = [], prob = [],
                          Ca = alpha this / (jsqrt (Fin (real (length data))) - Fin 0.01
                                              + Fin 0.85 / jsqrt (Fin (real (length data)))),
                          fitted = True\<rparr>"
  have loop: "ks_loop d (length data) (Ca r0) (M (statistics tr)) (SD (statistics tr))
                (Cs (statistics tr)) (sortDescending data) [Suc 0..<Suc (length data)] r0 = Inr r"
    using run ne by (simp add: runTest_def Let_def tr_def r0_def)
  have "ks_inv (sortDescending data) 0 r0" by (simp add: ks_inv_def r0_def)
  from ks_loop_inv[OF loop this] have inv: "ks_inv (sortDescending data) (length data) r" by simp
  then show "length (obs r) = length data" "length (lowerBound r) = length data"
    "length (upperBound r) = length data" "length (mark r) = length data"
    "(\<not> ks_results.fitted r) = (\<exists>i<length data. below_lower r i \<or> above_upper r i)"
    "\<forall>i<length data. mark r ! i = mark_of r i"
    by (simp_all add: ks_inv_def)
next
  assume "ks_step d N ca mean std skew sortedData i s = Inr s' \<and> \<not> ks_results.fitted s"
  then show "\<not> ks_results.fitted s'" using ks_step_keeps_unfitted by blast
qed

lemma Look_range: "Look p = NaN \<or> (\<exists>q. Look p = Fin q)"
proof (cases p)
  case (Fin r)
  show ?thesis
  proof (cases "0 < r \<and> r < 1")
    case True
    then show ?thesis using Look_inside[of r] Fin by blast
  next
    case False
    then have "p \<le> Fin 0 \<or> p \<ge> Fin 1" using Fin by (auto simp: jsops)
    then show ?thesis using Look_outside by blast
  qed
next
  case PInf
  then show ?thesis using Look_outside[of p] by (simp add: jsops)
next
  case NInf
  then show ?thesis using Look_outside[of p] by (simp add: jsops)
next
  case NaN
  then show ?thesis using Look_NaN by simp
qed

lemma flat_bound: "Fin m + Fin 0 * Look p = NaN \<or> Fin m + Fin 0 * Look p = Fin m"
  using Look_range[of p] by (auto simp: jsops)

lemma ks_step_Normal:
  "ks_step Normal N ca mean std skew sortedData i r
   = Inr (ks_mark (plottingPosition 3 (Fin (real i)) (Fin (real N)))
            (mean + std * Look (Fin 1 - plottingPosition 3 (Fin (real i)) (Fin (real N))))
            (if \<not> isNaN (Look (Fin 1 - ((Fin (real i) - Fin 1) / Fin (real N) + ca)))
             then mean + std * Look (Fin 1 - ((Fin (real i) - Fin 1) / Fin (real N) + ca))
             else NaN)
            (if \<not> isNaN (Look (Fin 1 - (Fin (real i) / Fin (real N) - ca)))
             then mean + std * Look (Fin 1 - (Fin (real i) / Fin (real N) - ca))
             else NaN)
            (sortedData ! (i - 1)) r)"
  by (simp add: ks_step_def ks_bounds_def Let_def)

lemma ks_step_flat_Normal:
  "\<exists>px zEst zLow zHigh.
     ks_step Normal N ca (Fin m) (Fin 0) skew sortedData i r
     = Inr (ks_mark px zEst zLow zHigh (sortedData ! (i - 1)) r)
     \<and> (zLow = NaN \<or> zLow = Fin m) \<and> (zHigh = NaN \<or> zHigh = Fin m)"
proof -
  have "(if \<not> isNaN (Look p) then Fin m + Fin 0 * Look p else NaN) = NaN
        \<or> (if \<not> isNaN (Look p) then Fin m + Fin 0 * Look p else NaN) = Fin m" for p
    using flat_bound[of m p] by auto
  then show ?thesis unfolding ks_step_Normal by blast
qed

lemma ks_mark_flat:
  assumes "zLow = NaN \<or> zLow = Fin m" and "zHigh = NaN \<or> zHigh = Fin m"
  shows "mark (ks_mark px zEst zLow zHigh (Fin m) r) = mark r @ ''G''"
    and "ks_results.fitted (ks_mark px zEst zLow zHigh (Fin m) r) = ks_results.fitted r"
  using assms by (auto simp: ks_mark_fields jsops)

lemma runTest_zero_sample:
  "\<exists>r. runTest \<lparr>confidenceLevelIndex = 2, alpha = Fin 0.895\<rparr> LogNormal [Fin 0] = Inr r
       \<and> \<not> ks_results.fitted r \<and> mark r = ''-'' \<and> lowerBound r = [Fin 1] \<and> obs r = [Fin 0]"
proof -
  define c where "c = Fin 0.895 / (jsqrt (Fin (real 1)) - Fin 0.01 + Fin 0.85 / jsqrt (Fin (real 1)))"
  have c: "c = Fin (179 / 368)" by (simp add: c_def jsops)
  have st: "M (statistics [Fin 0]) = Fin 0" "SD (statistics [Fin 0]) = Fin 0"
    using statistics_M[of "[0]"] statistics_SD[of "[0]"]
    by (simp_all add: sample_mean_def sample_sd_def)
  have args: "Fin 1 - plottingPosition 3 (Fin (real 1)) (Fin (real 1)) = Fin (1 / 2)"
    "Fin 1 - ((Fin (real 1) - Fin 1) / Fin (real 1) + c) = Fin (189 / 368)"
    "Fin 1 - (Fin (real 1) / Fin (real 1) - c) = Fin (179 / 368)"
    by (simp_all add: c plottingPosition_def jsops)
  obtain q1 where q1: "Look (Fin (189 / 368)) = Fin q1" using Look_inside[of "189 / 368"] by auto
  obtain q2 where q2: "Look (Fin (179 / 368)) = Fin q2" using Look_inside[of "179 / 368"] by auto
  have bounds: "ks_bounds LogNormal (Fin 0) (Fin 0) skew
                  (plottingPosition 3 (Fin (real 1)) (Fin (real 1)))
                  ((Fin (real 1) - Fin 1) / Fin (real 1) + c) (Fin (real 1) / Fin (real 1) - c)
                = Inr (Fin 0, Fin 0, Fin 0)" for skew
    unfolding ks_bounds_def Let_def args q1 q2 Look_one_half by (simp add: jsops)
  have step: "ks_step LogNormal 1 c (Fin 0) (Fin 0) skew [Fin 0] 1 r0
              = Inr (ks_mark (plottingPosition 3 (Fin (real 1)) (Fin (real 1)))
                       (Fin 1) (Fin 1) (Fin 1) (Fin 0) r0)" for skew r0
    unfolding ks_step_def Let_def bounds by simp
  have log0: "map log10_clamped [Fin 0] = [Fin 0]" by (simp add: log10_clamped_def jsops)
  define r0 where "r0 = \<lparr>obs = [Fin 0], est = [], lowerBound = [], upperBound = [], mark = [],
                          prob = [], Ca = c, fitted = True\<rparr>"
  define r where "r = ks_mark (plottingPosition 3 (Fin (real 1)) (Fin (real 1)))
                        (Fin 1) (Fin 1) (Fin 1) (Fin 0) r0"
  have sorted: "sortDescending [Fin 0] = [Fin 0]" by (simp add: sortDescending_def sort_by_def)
  have upt: "[1..<Suc (length [Fin 0])] = [1]" by simp
  have "runTest \<lparr>confidenceLevelIndex = 2, alpha = Fin 0.895\<rparr> LogNormal [Fin 0]
        = ks_loop LogNormal 1 c (Fin 0) (Fin 0) (Cs (statistics [Fin 0])) [Fin 0] [1] r0"
    unfolding runTest_def Let_def sorted upt log0 st
    by (simp add: c_def r0_def st)
  also have "\<dots> = Inr r"
    by (simp only: ks_loop.simps step sum.case r_def)
  finally have run: "runTest \<lparr>confidenceLevelIndex = 2, alpha = Fin 0.895\<rparr> LogNormal [Fin 0]
                     = Inr r" .
  have "\<not> ks_results.fitted r" "mark r = ''-''" "lowerBound r = [Fin 1]" "obs r = [Fin 0]"
    by (simp_all add: r_def r0_def ks_mark_fields jsops)
  then show ?thesis using run by blast
qed

theorem ks_fitted_iff_witness:
  "(\<exists>r. runTest \<lparr>confidenceLevelIndex = 2, alpha = Fin 0.895\<rparr> Normal [Fin 5] = Inr r
        \<and> length (mark r) = 1 \<and> mark r ! 0 = mark_of r 0
        \<and> (\<not> ks_results.fitted r) = (below_lower r 0 \<or> above_upper r 0)
        \<and> ks_results.fitted r \<and> mark r = ''G'')
   \<and> (\<exists>r. runTest \<lparr>confidenceLevelIndex = 2, alpha = Fin 0.895\<rparr> LogNormal [Fin 0] = Inr r
        \<and> \<not> ks_results.fitted r \<and> mark r = ''-'' \<and> (below_lower r 0 \<or> above_upper r 0))
   \<and> (\<exists>s'. ks_step Normal 1 (Fin 0.1) (Fin 5) (Fin 0) (Fin 0) [Fin 5] 1
              \<lparr>obs = [Fin 5], est = [], lowerBound = [], upperBound = [], mark = [], prob = [],
               Ca = Fin 0.1, fitted = False\<rparr> = Inr s'
           \<and> \<not> ks_results.fitted s')"
proof -
  define ks where "ks = \<lparr>confidenceLevelIndex = 2, alpha = Fin 0.895\<rparr>"
  define c where "c = alpha ks / (jsqrt (Fin (real 1)) - Fin 0.01 + Fin 0.85 / jsqrt (Fin (real 1)))"
  define r0 where "r0 = \<lparr>obs = [Fin 5], est = [], lowerBound = [], upperBound = [], mark = [],
                          prob = [], Ca = c, fitted = True\<rparr>"
  have st: "M (statistics [Fin 5]) = Fin 5" "SD (statistics [Fin 5]) = Fin 0"
    using statistics_M[of "[5]"] statistics_SD[of "[5]"]
    by (simp_all add: sample_mean_def sample_sd_def)
  obtain px zEst zLow zHigh where step:
    "ks_step Normal 1 c (Fin 5) (Fin 0) (Cs (statistics [Fin 5])) [Fin 5] 1 r0
     = Inr (ks_mark px zEst zLow zHigh ([Fin 5] ! (1 - 1)) r0)"
    "zLow = NaN \<or> zLow = Fin 5" "zHigh = NaN \<or> zHigh = Fin 5"
    using ks_step_flat_Normal[of 1 c 5 "Cs (statistics [Fin 5])" "[Fin 5]" 1 r0] by blast
  define r where "r = ks_mark px zEst zLow zHigh (Fin 5) r0"
  have run: "runTest ks Normal [Fin 5] = Inr r"
    using step(1) by (simp add: runTest_def Let_def sortDescending_def sort_by_def st c_def r0_def r_def)
  have val: "mark r = ''G''" "ks_results.fitted r"
    using ks_mark_flat[OF step(2,3), of px zEst r0] by (simp_all add: r_def r0_def)
  have "length (mark r) = 1 \<and> mark r ! 0 = mark_of r 0
        \<and> (\<not> ks_results.fitted r) = (below_lower r 0 \<or> above_upper r 0)"
    using ks_fitted_iff[where this = ks and d = Normal and data = "[Fin 5]" and r = r] run
    by simp
  then have first: "\<exists>r. runTest ks Normal [Fin 5] = Inr r
        \<and> length (mark r) = 1 \<and> mark r ! 0 = mark_of r 0
        \<and> (\<not> ks_results.fitted r) = (below_lower r 0 \<or> above_upper r 0)
        \<and> ks_results.fitted r \<and> mark r = ''G''"
    using run val by blast
  obtain rz where rz: "runTest ks LogNormal [Fin 0] = Inr rz" "\<not> ks_results.fitted rz"
    "mark rz = ''-''"
    using runTest_zero_sample unfolding ks_def by blast
  have "below_lower rz 0 \<or> above_upper rz 0"
    using ks_fitted_iff[where this = ks and d = LogNormal and data = "[Fin 0]" and r = rz] rz
    by simp
  then have second: "\<exists>r. runTest ks LogNormal [Fin 0] = Inr r
        \<and> \<not> ks_results.fitted r \<and> mark r = ''-'' \<and> (below_lower r 0 \<or> above_upper r 0)"
    using rz by blast
  define s0 where "s0 = \<lparr>obs = [Fin 5], est = [], lowerBound = [], upperBound = [], mark = [],
                          prob = [], Ca = Fin 0.1, fitted = False\<rparr>"
  obtain s' where s': "ks_step Normal 1 (Fin 0.1) (Fin 5) (Fin 0) (Fin 0) [Fin 5] 1 s0 = Inr s'"
    using ks_step_flat_Normal[of 1 "Fin 0.1" 5 "Fin 0" "[Fin 5]" 1 s0] by blast
  then have "\<not> ks_results.fitted s'"
    using ks_fitted_iff[where d = Normal and N = 1 and ca = "Fin 0.1" and mean = "Fin 5"
        and std = "Fin 0" and skew = "Fin 0" and sortedData = "[Fin 5]" and i = 1 and s = s0
        and s' = s']
    by (simp add: s0_def)
  then show ?thesis using first second s' unfolding ks_def s0_def by blast
qed

section \<open>What a call leaves unchanged\<close>

lemma unchanged_refl [simp]: "unchanged h h"
  by (simp add: unchanged_def)

lemma unchanged_trans: "unchanged h h1 \<Longrightarrow> unchanged h1 h2 \<Longrightarrow> unchanged h h2"
  by (auto simp: unchanged_def)

lemma unchanged_alloc: "alloc xs h = (a, h') \<Longrightarrow> unchanged h h' \<and> a = lim h \<and> lim h' = Suc a"
  by (auto simp: alloc_def unchanged_def)

lemma unchanged_sort_in_place:
  "unchanged h h1 \<Longrightarrow> lim h \<le> a \<Longrightarrow> unchanged h (sort_in_place cmp a h1)"
  by (auto simp: unchanged_def sort_in_place_def)

lemma unchanged_sort_st: "sort_st arr h = (b, h') \<Longrightarrow> unchanged h h'"
  by (auto simp: sort_st_def Let_def split: prod.splits
      dest!: unchanged_alloc intro: unchanged_sort_in_place)

lemma unchanged_sortDescending_st: "sortDescending_st arr h = (b, h') \<Longrightarrow> unchanged h h'"
  by (auto simp: sortDescending_st_def Let_def split: prod.splits
      dest!: unchanged_alloc intro: unchanged_sort_in_place)

lemma unchanged_statistics_st: "statistics_st X h = (st, h') \<Longrightarrow> unchanged h h'"
  by (auto simp: statistics_st_def Let_def split: prod.splits if_splits
      dest: unchanged_sort_st)

lemma unchanged_freq_st: "freq_st d y T h = (res, h') \<Longrightarrow> unchanged h h'"
  by (auto simp: freq_st_def Let_def split: prod.splits if_splits
      dest!: unchanged_alloc unchanged_statistics_st intro: unchanged_trans)

lemma unchanged_runTest_st: "runTest_st this d data h = (res, h') \<Longrightarrow> unchanged h h'"
proof -
  assume run: "runTest_st this d data h = (res, h')"
  show ?thesis
  proof (cases "length (arrays h data) = 0")
    case True
    then show ?thesis using run by (simp add: runTest_st_def)
  next
    case False
    obtain sortedData h1 where s1: "sortDescending_st data h = (sortedData, h1)"
      by (cases "sortDescending_st data h")
    obtain td h2 where s2:
      "(if d = LogNormal \<or> d = LogPearsonType3
        then alloc (map log10_clamped (arrays h1 sortedData)) h1 else (sortedData, h1)) = (td, h2)"
      by (cases "if d = LogNormal \<or> d = LogPearsonType3
                 then alloc (map log10_clamped (arrays h1 sortedData)) h1 else (sortedData, h1)")
    obtain st h3 where s3: "statistics_st td h2 = (st, h3)" by (cases "statistics_st td h2")
    have u1: "unchanged h h1" using s1 by (rule unchanged_sortDescending_st)
    have u2: "unchanged h1 h2" using s2 by (auto split: if_splits dest: unchanged_alloc)
    have u3: "unchanged h2 h3" using s3 by (rule unchanged_statistics_st)
    have u: "unchanged h h3" using u1 u2 u3 unchanged_trans by blast
    show ?thesis
    proof (cases "runTest this d (arrays h data)")
      case (Inl err)
      then have "h' = h3" using run False s1 s2 s3 by (simp add: runTest_st_def Let_def)
      then show ?thesis using u by simp
    next
      case (Inr r)
      obtain a4 h4 where s4: "alloc (est r) h3 = (a4, h4)" by (cases "alloc (est r) h3")
      obtain a5 h5 where s5: "alloc (lowerBound r) h4 = (a5, h5)"
        by (cases "alloc (lowerBound r) h4")
      obtain a6 h6 where s6: "alloc (upperBound r) h5 = (a6, h6)"
        by (cases "alloc (upperBound r) h5")
      obtain a7 h7 where s7: "alloc (prob r) h6 = (a7, h7)" by (cases "alloc (prob r) h6")
      have "h' = h7"
        using run False s1 s2 s3 s4 s5 s6 s7 Inr by (simp add: runTest_st_def Let_def)
      moreover have "unchanged h3 h7"
        using s4 s5 s6 s7 unchanged_alloc unchanged_trans by blast
      ultimately show ?thesis using u unchanged_trans by blast
    qed
  qed
qed

lemma unchanged_chi2Test_st: "chi2Test_st d data ci h = (res, h') \<Longrightarrow> unchanged h h'"
proof -
  assume run: "chi2Test_st d data ci h = (res, h')"
  show ?thesis
  proof (cases "ci < 0 \<or> ci \<ge> int (length ConfidenceLevelString)")
    case True
    then show ?thesis using run by (simp add: chi2Test_st_def)
  next
    case False
    obtain sortedData h1 where s1: "sort_st data h = (sortedData, h1)"
      by (cases "sort_st data h")
    obtain td h2 where s2:
      "(if d = LogNormal \<or> d = LogPearsonType3
        then alloc (map log10_clamped (arrays h1 sortedData)) h1 else (sortedData, h1)) = (td, h2)"
      by (cases "if d = LogNormal \<or> d = LogPearsonType3
                 then alloc (map log10_clamped (arrays h1 sortedData)) h1 else (sortedData, h1)")
    obtain st h3 where s3: "statistics_st td h2 = (st, h3)" by (cases "statistics_st td h2")
    have u1: "unchanged h h1" using s1 by (rule unchanged_sort_st)
    have u2: "unchanged h1 h2" using s2 by (auto split: if_splits dest: unchanged_alloc)
    have u3: "unchanged h2 h3" using s3 by (rule unchanged_statistics_st)
    have u: "unchanged h h3" using u1 u2 u3 unchanged_trans by blast
    have body: "chi2Test_st d data ci h
                = (case chi2Test d (arrays h data) ci of
                     Inr (Chi2Results r) \<Rightarrow>
                       (let (lo_a, h4) = alloc (lo r) h3;
                            (hi_a, h5) = alloc (hi r) h4;
                            (o_a, h6) = alloc (map (\<lambda>c. Fin (real c)) (o' r)) h5;
                            (e_a, h7) = alloc (e' r) h6
                        in (Inr (Chi2Results r), h7))
                   | other \<Rightarrow> (other, h3))"
      using False s1 s2 s3 by (simp add: chi2Test_st_def Let_def)
    show ?thesis
    proof (cases "\<exists>r. chi2Test d (arrays h data) ci = Inr (Chi2Results r)")
      case True
      then obtain r where r: "chi2Test d (arrays h data) ci = Inr (Chi2Results r)" by blast
      obtain a4 h4 where s4: "alloc (lo r) h3 = (a4, h4)" by (cases "alloc (lo r) h3")
      obtain a5 h5 where s5: "alloc (hi r) h4 = (a5, h5)" by (cases "alloc (hi r) h4")
      obtain a6 h6 where s6: "alloc (map (\<lambda>c. Fin (real c)) (o' r)) h5 = (a6, h6)"
        by (cases "alloc (map (\<lambda>c. Fin (real c)) (o' r)) h5")
      obtain a7 h7 where s7: "alloc (e' r) h6 = (a7, h7)" by (cases "alloc (e' r) h6")
      have "h' = h7" using run body r s4 s5 s6 s7 by simp
      moreover have "unchanged h3 h7"
        using s4 s5 s6 s7 unchanged_alloc unchanged_trans by blast
      ultimately show ?thesis using u unchanged_trans by blast
    next
      case False
      then have "h' = h3"
        using run body by (auto split: sum.splits chi2_return.splits)
      then show ?thesis using u by simp
    qed
  qed
qed

lemma sort_st_copy:
  "arrays (snd (sort_st arr h)) (fst (sort_st arr h)) = sort_arr (arrays h arr)"
  by (simp add: sort_st_def alloc_def sort_in_place_def sort_arr_def Let_def)

lemma sortDescending_st_copy:
  "arrays (snd (sortDescending_st data h)) (fst (sortDescending_st data h))
   = sortDescending (arrays h data)"
  by (simp add: sortDescending_st_def alloc_def sort_in_place_def sortDescending_def Let_def)

text \<open>
  Claim C8. None of the core operations (\<^verbatim>\<open>statistics\<close>, \<^verbatim>\<open>freq\<close>, \<^verbatim>\<open>runTest\<close>, \<^verbatim>\<open>chi2Test\<close>, and
  the two sorting helpers they call) changes an array that existed before the call: in
  particular the array of the caller holds the same elements in the same order
  afterwards. Every sort reorders a copy made by the call, and that copy holds the
  sorted elements.
\<close>

theorem caller_array_unchanged:
  "unchanged h (snd (sort_st data h))
   \<and> arrays (snd (sort_st data h)) (fst (sort_st data h)) = sort_arr (arrays h data)
   \<and> unchanged h (snd (sortDescending_st data h))
   \<and> arrays (snd (sortDescending_st data h)) (fst (sortDescending_st data h))
     = sortDescending (arrays h data)
   \<and> unchanged h (snd (statistics_st data h))
   \<and> unchanged h (snd (freq_st d data T h))
   \<and> unchanged h (snd (runTest_st this d data h))
   \<and> unchanged h (snd (chi2Test_st d data ci h))
   \<and> (data < lim h \<longrightarrow>
        arrays (snd (statistics_st data h)) data = arrays h data
        \<and> arrays (snd (freq_st d data T h)) data = arrays h data
        \<and> arrays (snd (runTest_st this d data h)) data = arrays h data
        \<and> arrays (snd (chi2Test_st d data ci h)) data = arrays h data)"
proof -
  have u: "unchanged h (snd (sort_st data h))" "unchanged h (snd (sortDescending_st data h))"
    "unchanged h (snd (statistics_st data h))" "unchanged h (snd (freq_st d data T h))"
    "unchanged h (snd (runTest_st this d data h))" "unchanged h (snd (chi2Test_st d data ci h))"
    by (rule unchanged_sort_st[OF surjective_pairing]
        unchanged_sortDescending_st[OF surjective_pairing]
        unchanged_statistics_st[OF surjective_pairing] unchanged_freq_st[OF surjective_pairing]
        unchanged_runTest_st[OF surjective_pairing] unchanged_chi2Test_st[OF surjective_pairing])+
  then show ?thesis
    using sort_st_copy sortDescending_st_copy by (simp add: unchanged_def)
qed

theorem caller_array_unchanged_witness:
  "arrays (snd (sort_st 0 \<lparr>arrays = (\<lambda>a. []) (0 := [Fin 3, Fin 1, Fin 2]), lim = 1\<rparr>))
     (fst (sort_st 0 \<lparr>arrays = (\<lambda>a. []) (0 := [Fin 3, Fin 1, Fin 2]), lim = 1\<rparr>))
   = [Fin 1, Fin 2, Fin 3]
   \<and> arrays (snd (statistics_st 0 \<lparr>arrays = (\<lambda>a. []) (0 := [Fin 3, Fin 1, Fin 2]), lim = 1\<rparr>)) 0
     = [Fin 3, Fin 1, Fin 2]
   \<and> arrays (snd (freq_st Normal 0 (Fin 10)
                   \<lparr>arrays = (\<lambda>a. []) (0 := [Fin 3, Fin 1, Fin 2]), lim = 1\<rparr>)) 0
     = [Fin 3, Fin 1, Fin 2]
   \<and> arrays (snd (runTest_st \<lparr>confidenceLevelIndex = 2, alpha = Fin 0.895\<rparr> Normal 0
                   \<lparr>arrays = (\<lambda>a. []) (0 := [Fin 3, Fin 1, Fin 2]), lim = 1\<rparr>)) 0
     = [Fin 3, Fin 1, Fin 2]
   \<and> arrays (snd (chi2Test_st Normal 0 2
                   \<lparr>arrays = (\<lambda>a. []) (0 := [Fin 3, Fin 1, Fin 2]), lim = 1\<rparr>)) 0
     = [Fin 3, Fin 1, Fin 2]"
proof -
  define h0 where "h0 = \<lparr>arrays = (\<lambda>a. []) (0 := [Fin 3, Fin 1, Fin 2]), lim = 1\<rparr>"
  have "sort_arr (arrays h0 0) = [Fin 1, Fin 2, Fin 3]"
    by (simp add: h0_def sort_arr_def sort_by_def jsops)
  moreover have "(0::nat) < lim h0" "arrays h0 0 = [Fin 3, Fin 1, Fin 2]"
    by (simp_all add: h0_def)
  ultimately show ?thesis
    using caller_array_unchanged[where h = h0 and data = 0 and d = Normal and T = "Fin 10"
        and this = "\<lparr>confidenceLevelIndex = 2, alpha = Fin 0.895\<rparr>" and ci = 2]
    unfolding h0_def[symmetric] by simp
qed

end
